theory Spec2Isabelle
  imports Main "HOL-Library.Sublist"
begin

section \<open>Data model of \<^verbatim>\<open>src/renderer/lib/dolphin.ts\<close>\<close>

text \<open>
  Modelled from the spec: the enum \<^verbatim>\<open>OBSRecordingAction\<close> is declared in
  \<^verbatim>\<open>@/lib/obs\<close>, which is not among the sources. The spec lists the commands
  \<^verbatim>\<open>{START, STOP, PAUSE, UNPAUSE}\<close>; \<^verbatim>\<open>dolphin.ts\<close> uses exactly these four.
\<close>

datatype OBSRecordingAction = START | STOP | PAUSE | UNPAUSE

text \<open>
  \<^verbatim>\<open>DolphinPlaybackStatus\<close> comes from the library \<^verbatim>\<open>@vinceau/slp-realtime\<close>. The
  \<^verbatim>\<open>switch\<close> of \<^verbatim>\<open>_handleDolphinPlayback\<close> has a case for three members; every
  other member is \<open>OTHER_STATUS\<close>, for which the \<^verbatim>\<open>switch\<close> does nothing.
\<close>

datatype DolphinPlaybackStatus = PLAYBACK_START | PLAYBACK_END | QUEUE_EMPTY | OTHER_STATUS

text \<open>
  \<^verbatim>\<open>DolphinPlaybackPayload\<close>: \<^verbatim>\<open>{ status, data? }\<close>. Of \<^verbatim>\<open>data\<close> the code reads only
  \<^verbatim>\<open>gameEnded\<close>; \<open>None\<close> is an absent property.
\<close>

record PlaybackData =
  gameEnded :: "bool option"

record DolphinPlaybackPayload =
  status :: DolphinPlaybackStatus
  data :: "PlaybackData option"

text \<open>\<^verbatim>\<open>payload.data && payload.data.gameEnded\<close> (line 87), as a truth value.\<close>

definition data_gameEnded :: "DolphinPlaybackPayload \<Rightarrow> bool" where
  "data_gameEnded payload =
     (case data payload of
        None \<Rightarrow> False
      | Some d \<Rightarrow> (case gameEnded d of None \<Rightarrow> False | Some b \<Rightarrow> b))"

text \<open>
  \<^verbatim>\<open>DolphinPlayerOptions\<close> (lines 30-35) and \<^verbatim>\<open>Partial<DolphinPlayerOptions>\<close>, where
  \<open>None\<close> is an absent property. The field \<^verbatim>\<open>record\<close> is written \<open>record'\<close>.
\<close>

record DolphinPlayerOptions =
  record' :: bool
  pauseBetweenEntries :: bool

definition defaultDolphinPlayerOptions :: DolphinPlayerOptions where
  "defaultDolphinPlayerOptions = \<lparr>record' = False, pauseBetweenEntries = True\<rparr>"

record PartialOptions =
  opt_record :: "bool option"
  opt_pauseBetweenEntries :: "bool option"

text \<open>\<^verbatim>\<open>Object.assign({}, defaultDolphinPlayerOptions, options)\<close> (line 70).\<close>

definition Object_assign :: "DolphinPlayerOptions \<Rightarrow> PartialOptions option \<Rightarrow> DolphinPlayerOptions" where
  "Object_assign d options =
     (case options of
        None \<Rightarrow> d
      | Some p \<Rightarrow>
          \<lparr>record' = (case opt_record p of None \<Rightarrow> record' d | Some b \<Rightarrow> b),
           pauseBetweenEntries =
             (case opt_pauseBetweenEntries p of None \<Rightarrow> pauseBetweenEntries d | Some b \<Rightarrow> b)\<rparr>)"

text \<open>The queue entries built on line 131 are \<^verbatim>\<open>{path: filename}\<close>.\<close>

record DolphinEntry =
  path :: string

definition DELAY_AMOUNT_MS :: nat where
  "DELAY_AMOUNT_MS = 1000"

subsection \<open>What the program does to the outside, as a trace\<close>

text \<open>
  The constructor makes three subscriptions (lines 53-58, 59-63, 64-66); every effect is
  recorded with the subscription whose handler performed it, or with \<open>Caller\<close> for the
  exported functions.
\<close>

datatype origin = StatusSub | QuitSub | FilenameSub | Caller

datatype effect =
    HandlerCalled
  | HandlerSettled bool
  | ConsoleLogPayload DolphinPlaybackPayload
  | ConsoleLogQueue "DolphinEntry list"
  | ConsoleError string
  | IsRecording bool
  | SetRecordingState OBSRecordingAction
  | CommandSettled bool
  | DelayStarted nat
  | DelayElapsed
  | BasenameNext string
  | Kill
  | Launch string
  | UnhandledError

subsection \<open>Suspended handlers and \<^verbatim>\<open>concatMap\<close>\<close>

text \<open>
  An \<^verbatim>\<open>async\<close> handler runs until its next \<^verbatim>\<open>await\<close>. \<open>kont\<close> is what remains of the
  handler once the awaited \<^verbatim>\<open>setRecordingState\<close> resolves: \<open>Break\<close> for lines 85 and 91,
  \<open>StopTail killDolphin\<close> for lines 104-106 followed by line 95 or by the end of the
  engine-exit handler.
\<close>

datatype kont = Break | StopTail bool

text \<open>
  Where a running handler is suspended: in \<^verbatim>\<open>delay(DELAY_AMOUNT_MS)\<close> (line 88, with the
  time at which the timer is due), in \<^verbatim>\<open>setRecordingState\<close> (lines 84, 90, 102), or
  returned: its promise has settled (\<open>True\<close> fulfilled, \<open>False\<close> rejected) and
  \<^verbatim>\<open>from(promise)\<close> has not yet notified \<^verbatim>\<open>concatMap\<close>. A promise notifies in a later
  turn of the event loop, never inside the call that settles it; events emitted in
  between find the handler still active.
\<close>

datatype susp = InDelay nat | InCommand kont | Returned bool

text \<open>
  One \<^verbatim>\<open>pipe(filter(..), concatMap(..)).subscribe()\<close>. The operators are those of the
  library \<^verbatim>\<open>rxjs\<close> and are modelled after its documentation: \<^verbatim>\<open>concatMap\<close> is subscribed
  to at most one inner observable, holds back in a buffer the values that arrive
  meanwhile, and projects the oldest of them when the inner observable completes; an
  error ends the subscription. The state of one such subscription: the handler behind the
  inner observable, the buffer, and whether the subscription has ended.
\<close>

record 'v pipeline =
  active :: "susp option"
  buffer :: "'v list"
  closed :: bool

definition idle :: "'v pipeline" where
  "idle = \<lparr>active = None, buffer = [], closed = False\<rparr>"

subsection \<open>The state of the module\<close>

text \<open>
  The fields of the singleton \<^verbatim>\<open>dolphinPlayer\<close> (lines 44-48, \<open>dolphin\<close> inherited from
  \<^verbatim>\<open>DolphinLauncher\<close>) with its two gated subscriptions, the state that
  \<^verbatim>\<open>obsConnection\<close> reports, the environment (time, temporary folder, file system), the
  \<^verbatim>\<open>tempContainer\<close> of the store, and the trace. The type \<open>'o\<close> is that of
  \<^verbatim>\<open>dolphinQueueOptions\<close>, which the code only spreads into the object it serializes.
\<close>

record 'o world =
  recordingEnabled :: bool
  startAction :: OBSRecordingAction
  endAction :: OBSRecordingAction
  currentBasename :: string
  dolphin :: "string option"
  statusPipe :: "DolphinPlaybackPayload pipeline"
  quitPipe :: "unit pipeline"
  obsConnected :: bool
  obsRecording :: bool
  clock :: nat
  tempFolder :: string
  writable :: bool
  files :: "(string \<times> string) list"
  dolphinQueue :: "DolphinEntry list"
  dolphinQueueOptions :: 'o
  trace :: "(origin \<times> effect) list"

definition emit :: "origin \<Rightarrow> effect list \<Rightarrow> 'o world \<Rightarrow> 'o world" where
  "emit og es w = w\<lparr>trace := trace w @ map (Pair og) es\<rparr>"

section \<open>\<^verbatim>\<open>DolphinRecorder\<close>\<close>

text \<open>
  Modelled from the spec: \<^verbatim>\<open>DolphinLauncher.loadJSON\<close> (the \<^verbatim>\<open>super.loadJSON\<close> of line
  76) is library code; the spec says it requests the playback engine to begin consuming
  the referenced queue. The process handle \<^verbatim>\<open>this.dolphin\<close> is then set.
\<close>

definition super_loadJSON :: "string \<Rightarrow> 'o world \<Rightarrow> 'o world" where
  "super_loadJSON comboFilePath w =
     emit Caller [Launch comboFilePath] (w\<lparr>dolphin := Some comboFilePath\<rparr>)"

text \<open>\<^verbatim>\<open>loadJSON\<close>, lines 69-77.\<close>

definition loadJSON :: "string \<Rightarrow> PartialOptions option \<Rightarrow> 'o world \<Rightarrow> 'o world" where
  "loadJSON comboFilePath options w =
     (let opts = Object_assign defaultDolphinPlayerOptions options;
          w1 = w\<lparr>recordingEnabled := record' opts\<rparr>;
          w2 = (if recordingEnabled w1
                then w1\<lparr>startAction := (if pauseBetweenEntries opts then UNPAUSE else START),
                        endAction := (if pauseBetweenEntries opts then PAUSE else STOP)\<rparr>
                else w1)
      in super_loadJSON comboFilePath w2)"

text \<open>\<^verbatim>\<open>_stopRecording\<close>, lines 104-106: what follows the \<^verbatim>\<open>if\<close> of line 101.\<close>

definition stopRecording_tail :: "origin \<Rightarrow> bool \<Rightarrow> 'o world \<Rightarrow> 'o world" where
  "stopRecording_tail og killDolphin w =
     (if killDolphin \<and> dolphin w \<noteq> None then emit og [Kill] w else w)"

text \<open>
  \<^verbatim>\<open>_stopRecording\<close>, lines 99-107, up to its first suspension. When the device is not
  recording there is no \<^verbatim>\<open>await\<close> and the routine runs to its end.
\<close>

definition stopRecording :: "origin \<Rightarrow> bool \<Rightarrow> 'o world \<Rightarrow> 'o world \<times> susp" where
  "stopRecording og killDolphin w =
     (let w1 = emit og [BasenameNext ''''] (w\<lparr>currentBasename := ''''\<rparr>);
          r = obsRecording w1;
          w2 = emit og [IsRecording r] w1
      in if r then (emit og [SetRecordingState STOP] w2, InCommand (StopTail killDolphin))
         else (stopRecording_tail og killDolphin w2, Returned True))"

text \<open>Line 90, also reached from line 88 when the delay has elapsed.\<close>

definition issueEndAction :: "'o world \<Rightarrow> 'o world \<times> susp" where
  "issueEndAction w = (emit StatusSub [SetRecordingState (endAction w)] w, InCommand Break)"

text \<open>\<^verbatim>\<open>_handleDolphinPlayback\<close>, lines 79-97, up to its first suspension.\<close>

definition handleDolphinPlayback :: "DolphinPlaybackPayload \<Rightarrow> 'o world \<Rightarrow> 'o world \<times> susp" where
  "handleDolphinPlayback payload w =
     (let w1 = emit StatusSub [ConsoleLogPayload payload] w
      in case status payload of
           PLAYBACK_START \<Rightarrow>
             (let r = obsRecording w1;
                  action = (if r then startAction w1 else START)
              in (emit StatusSub [IsRecording r, SetRecordingState action] w1, InCommand Break))
         | PLAYBACK_END \<Rightarrow>
             (if data_gameEnded payload
              then (emit StatusSub [DelayStarted DELAY_AMOUNT_MS] w1,
                    InDelay (clock w1 + DELAY_AMOUNT_MS))
              else issueEndAction w1)
         | QUEUE_EMPTY \<Rightarrow> stopRecording StatusSub True w1
         | OTHER_STATUS \<Rightarrow> (w1, Returned True))"

text \<open>
  A handler resumed when the awaited \<^verbatim>\<open>setRecordingState\<close> settles. No handler has a
  \<^verbatim>\<open>try\<close>: a rejection leaves the \<^verbatim>\<open>async\<close> function at the \<^verbatim>\<open>await\<close>, and the promise
  the handler returned rejects.
\<close>

definition afterCommand :: "origin \<Rightarrow> bool \<Rightarrow> kont \<Rightarrow> 'o world \<Rightarrow> 'o world \<times> susp" where
  "afterCommand og ok k w =
     (if \<not> ok then (w, Returned False)
      else case k of
             Break \<Rightarrow> (w, Returned True)
           | StopTail killDolphin \<Rightarrow> (stopRecording_tail og killDolphin w, Returned True))"

text \<open>The settling of the handler's own promise is recorded in the trace.\<close>

definition settle :: "origin \<Rightarrow> 'o world \<times> susp \<Rightarrow> 'o world \<times> susp" where
  "settle og r =
     (case snd r of
        Returned ok \<Rightarrow> (emit og [HandlerSettled ok] (fst r), snd r)
      | _ \<Rightarrow> r)"

subsection \<open>The playback-status subscription, lines 53-58\<close>

text \<open>A segment of a handler has run: the subscription keeps where the handler now is.\<close>

definition status_run :: "'o world \<times> susp \<Rightarrow> 'o world" where
  "status_run r =
     (let r' = settle StatusSub r
      in (fst r')\<lparr>statusPipe := (statusPipe (fst r'))\<lparr>active := Some (snd r')\<rparr>\<rparr>)"

text \<open>\<^verbatim>\<open>concatMap\<close> calls its projection: \<^verbatim>\<open>from(this._handleDolphinPlayback(payload))\<close>.\<close>

definition status_project :: "DolphinPlaybackPayload \<Rightarrow> 'o world \<Rightarrow> 'o world" where
  "status_project payload w =
     status_run (handleDolphinPlayback payload (emit StatusSub [HandlerCalled] w))"

text \<open>
  A value reaches the subscription: nothing when the subscription has ended, nothing when
  the \<^verbatim>\<open>filter\<close> of line 55 is false; otherwise \<^verbatim>\<open>concatMap\<close> projects it at once when
  it has no inner observable, and holds it back when it has one.
\<close>

definition status_next :: "DolphinPlaybackPayload \<Rightarrow> 'o world \<Rightarrow> 'o world" where
  "status_next payload w =
     (if closed (statusPipe w) then w
      else if recordingEnabled w \<and> obsConnected w
      then (if active (statusPipe w) = None then status_project payload w
            else w\<lparr>statusPipe := (statusPipe w)\<lparr>buffer := buffer (statusPipe w) @ [payload]\<rparr>\<rparr>)
      else w)"

text \<open>
  \<^verbatim>\<open>from(promise)\<close> notifies \<^verbatim>\<open>concatMap\<close>. A fulfilled promise completes the inner
  observable and \<^verbatim>\<open>concatMap\<close> projects the oldest value it holds. A rejected promise is
  an error of the inner observable, which \<^verbatim>\<open>concatMap\<close> passes on; \<^verbatim>\<open>subscribe()\<close> has
  no error callback, so the subscription ends and the error is reported as unhandled.
\<close>

definition status_delivered :: "'o world \<Rightarrow> 'o world" where
  "status_delivered w =
     (case active (statusPipe w) of
        Some (Returned True) \<Rightarrow>
          (case buffer (statusPipe w) of
             [] \<Rightarrow> w\<lparr>statusPipe := (statusPipe w)\<lparr>active := None\<rparr>\<rparr>
           | payload # rest \<Rightarrow>
               status_project payload
                 (w\<lparr>statusPipe := (statusPipe w)\<lparr>active := None, buffer := rest\<rparr>\<rparr>))
      | Some (Returned False) \<Rightarrow>
          emit StatusSub [UnhandledError]
            (w\<lparr>statusPipe := \<lparr>active = None, buffer = [], closed = True\<rparr>\<rparr>)
      | _ \<Rightarrow> w)"

text \<open>The timer of line 88 fires, not before it is due.\<close>

definition status_timer :: "'o world \<Rightarrow> 'o world" where
  "status_timer w =
     (case active (statusPipe w) of
        Some (InDelay due) \<Rightarrow>
          (if due \<le> clock w then status_run (issueEndAction (emit StatusSub [DelayElapsed] w))
           else w)
      | _ \<Rightarrow> w)"

text \<open>The promise of the \<^verbatim>\<open>setRecordingState\<close> a status handler awaits settles.\<close>

definition status_command :: "bool \<Rightarrow> 'o world \<Rightarrow> 'o world" where
  "status_command ok w =
     (case active (statusPipe w) of
        Some (InCommand k) \<Rightarrow>
          status_run (afterCommand StatusSub ok k (emit StatusSub [CommandSettled ok] w))
      | _ \<Rightarrow> w)"

subsection \<open>The engine-exit subscription, lines 59-63\<close>

definition quit_run :: "'o world \<times> susp \<Rightarrow> 'o world" where
  "quit_run r =
     (let r' = settle QuitSub r
      in (fst r')\<lparr>quitPipe := (quitPipe (fst r'))\<lparr>active := Some (snd r')\<rparr>\<rparr>)"

text \<open>\<^verbatim>\<open>from(this._stopRecording())\<close>: \<^verbatim>\<open>killDolphin\<close> is undefined.\<close>

definition quit_project :: "'o world \<Rightarrow> 'o world" where
  "quit_project w = quit_run (stopRecording QuitSub False (emit QuitSub [HandlerCalled] w))"

definition quit_next :: "'o world \<Rightarrow> 'o world" where
  "quit_next w =
     (if closed (quitPipe w) then w
      else if recordingEnabled w \<and> obsConnected w
      then (if active (quitPipe w) = None then quit_project w
            else w\<lparr>quitPipe := (quitPipe w)\<lparr>buffer := buffer (quitPipe w) @ [()]\<rparr>\<rparr>)
      else w)"

definition quit_delivered :: "'o world \<Rightarrow> 'o world" where
  "quit_delivered w =
     (case active (quitPipe w) of
        Some (Returned True) \<Rightarrow>
          (case buffer (quitPipe w) of
             [] \<Rightarrow> w\<lparr>quitPipe := (quitPipe w)\<lparr>active := None\<rparr>\<rparr>
           | u # rest \<Rightarrow>
               quit_project (w\<lparr>quitPipe := (quitPipe w)\<lparr>active := None, buffer := rest\<rparr>\<rparr>))
      | Some (Returned False) \<Rightarrow>
          emit QuitSub [UnhandledError]
            (w\<lparr>quitPipe := \<lparr>active = None, buffer = [], closed = True\<rparr>\<rparr>)
      | _ \<Rightarrow> w)"

definition quit_command :: "bool \<Rightarrow> 'o world \<Rightarrow> 'o world" where
  "quit_command ok w =
     (case active (quitPipe w) of
        Some (InCommand k) \<Rightarrow>
          quit_run (afterCommand QuitSub ok k (emit QuitSub [CommandSettled ok] w))
      | _ \<Rightarrow> w)"

subsection \<open>Paths\<close>

text \<open>
  \<^verbatim>\<open>path.basename\<close> and \<^verbatim>\<open>path.extname\<close> are Node's. They are modelled after Node's
  documentation, for the separator \<^verbatim>\<open>/\<close>: trailing separators are ignored, the last
  portion of the path is what follows its last separator, and the extension runs from the
  last \<^verbatim>\<open>.\<close> of the last portion to its end; it is empty when the last portion has no
  \<^verbatim>\<open>.\<close>, when its only \<^verbatim>\<open>.\<close> is its first character, and for \<^verbatim>\<open>..\<close>.
\<close>

definition path_basename :: "string \<Rightarrow> string" where
  "path_basename p =
     rev (takeWhile (\<lambda>c. c \<noteq> CHR ''/'') (dropWhile (\<lambda>c. c = CHR ''/'') (rev p)))"

definition path_extname :: "string \<Rightarrow> string" where
  "path_extname p =
     (let base = path_basename p;
          ext = rev (takeWhile (\<lambda>c. c \<noteq> CHR ''.'') (rev base));
          stem = take (length base - length ext - 1) base
      in if CHR ''.'' \<notin> set base \<or> stem = [] \<or> base = ''..'' then [] else CHR ''.'' # ext)"

subsection \<open>The filename subscription, lines 64-66\<close>

definition filename_next :: "string \<Rightarrow> 'o world \<Rightarrow> 'o world" where
  "filename_next fullpath w =
     (let name = path_basename fullpath
      in emit FilenameSub [BasenameNext name] (w\<lparr>currentBasename := name\<rparr>))"

subsection \<open>Everything that can happen to the recorder\<close>

text \<open>
  The three observables emit (\<open>PlaybackStatus\<close>, \<open>DolphinQuit\<close>, \<open>PlaybackFilename\<close>), a
  caller loads a queue (\<open>LoadJSON\<close>), the device changes what it reports (\<open>ObsState\<close>
  connected recording), time passes (\<open>Advance\<close>, in ms), the timer of the delay fires
  (\<open>TimerFired\<close>), the promise of the command that the handler of a subscription awaits
  resolves or rejects (\<open>CommandDone\<close>), and the settled promise of a handler notifies its
  subscription (\<open>Delivered\<close>). The device is not the program's: what it reports changes
  by \<open>ObsState\<close> only, never by a command. An input that is not possible in a state (a
  timer that is not due, a promise nobody awaits) leaves the state as it is.
\<close>

datatype input =
    PlaybackStatus DolphinPlaybackPayload
  | DolphinQuit
  | PlaybackFilename string
  | LoadJSON string "PartialOptions option"
  | ObsState bool bool
  | Advance nat
  | TimerFired
  | CommandDone origin bool
  | Delivered origin

fun step :: "'o world \<Rightarrow> input \<Rightarrow> 'o world" where
  "step w (PlaybackStatus payload) = status_next payload w"
| "step w DolphinQuit = quit_next w"
| "step w (PlaybackFilename fullpath) = filename_next fullpath w"
| "step w (LoadJSON comboFilePath options) = loadJSON comboFilePath options w"
| "step w (ObsState c r) = w\<lparr>obsConnected := c, obsRecording := r\<rparr>"
| "step w (Advance n) = w\<lparr>clock := clock w + n\<rparr>"
| "step w TimerFired = status_timer w"
| "step w (CommandDone og ok) =
     (case og of StatusSub \<Rightarrow> status_command ok w | QuitSub \<Rightarrow> quit_command ok w | _ \<Rightarrow> w)"
| "step w (Delivered og) =
     (case og of StatusSub \<Rightarrow> status_delivered w | QuitSub \<Rightarrow> quit_delivered w | _ \<Rightarrow> w)"

definition run :: "'o world \<Rightarrow> input list \<Rightarrow> 'o world" where
  "run w ins = foldl step w ins"

text \<open>
  The module once loaded (lines 44-48 and 122): nothing recorded, no process, both
  subscriptions waiting; the environment is given.
\<close>

definition initial :: "string \<Rightarrow> 'o \<Rightarrow> 'o world" where
  "initial tmp qo =
     \<lparr>recordingEnabled = False, startAction = START, endAction = STOP,
      currentBasename = '''', dolphin = None, statusPipe = idle, quitPipe = idle,
      obsConnected = False, obsRecording = False, clock = 0, tempFolder = tmp,
      writable = True, files = [], dolphinQueue = [], dolphinQueueOptions = qo, trace = []\<rparr>"

section \<open>Queue files\<close>

text \<open>
  \<^verbatim>\<open>randomTempJSONFile\<close>, lines 111-115. \<^verbatim>\<open>Date.now()\<close> is the clock, printed in
  decimal by the template string; \<^verbatim>\<open>path.join\<close> is Node's, modelled for two segments
  that need no normalisation.
\<close>

fun string_of_nat :: "nat \<Rightarrow> string" where
  "string_of_nat n =
     (if n < 10 then [''0123456789'' ! n]
      else string_of_nat (n div 10) @ [''0123456789'' ! (n mod 10)])"

declare string_of_nat.simps [simp del]

definition path_join :: "string \<Rightarrow> string \<Rightarrow> string" where
  "path_join folder filename = folder @ ''/'' @ filename"

definition randomTempJSONFile :: "'o world \<Rightarrow> string" where
  "randomTempJSONFile w =
     path_join (tempFolder w) (string_of_nat (clock w) @ ''_dolphin_queue.json'')"

text \<open>
  \<^verbatim>\<open>fs.writeFile\<close> replaces the content of the file or rejects; which of the two is the
  environment's choice (\<open>writable\<close>). \<open>files\<close> lists the content of every file written,
  the latest first.
\<close>

datatype error = WriteFailed string

definition fs_writeFile :: "string \<Rightarrow> string \<Rightarrow> 'o world \<Rightarrow> error + 'o world" where
  "fs_writeFile file content w =
     (if writable w then Inr (w\<lparr>files := (file, content) # files w\<rparr>)
      else Inl (WriteFailed file))"

text \<open>\<^verbatim>\<open>openComboInDolphin\<close>, lines 124-126.\<close>

definition openComboInDolphin :: "string \<Rightarrow> PartialOptions option \<Rightarrow> 'o world \<Rightarrow> 'o world" where
  "openComboInDolphin filePath options w = loadJSON filePath options w"

text \<open>\<^verbatim>\<open>loadPayloadIntoDolphin\<close>, lines 141-145; \<open>Inl\<close> is the rejected promise.\<close>

definition loadPayloadIntoDolphin ::
  "string \<Rightarrow> PartialOptions option \<Rightarrow> 'o world \<Rightarrow> error + 'o world" where
  "loadPayloadIntoDolphin payload options w =
     (let outputFile = randomTempJSONFile w
      in case fs_writeFile outputFile payload w of
           Inl e \<Rightarrow> Inl e
         | Inr w1 \<Rightarrow> Inr (openComboInDolphin outputFile options w1))"

text \<open>Lines 129-131: the queue built from the file names.\<close>

definition slp_queue :: "string list \<Rightarrow> DolphinEntry list" where
  "slp_queue filenames =
     map (\<lambda>filename. \<lparr>path = filename\<rparr>)
       (filter (\<lambda>filename. path_extname filename = ''.slp'') filenames)"

text \<open>
  \<^verbatim>\<open>loadSlpFilesInDolphin\<close>, lines 128-139. \<^verbatim>\<open>generateDolphinQueuePayload\<close> is a
  function of the library \<^verbatim>\<open>@vinceau/slp-realtime\<close>, taken as a parameter.
\<close>

definition loadSlpFilesInDolphin ::
  "(DolphinEntry list \<Rightarrow> string) \<Rightarrow> string list \<Rightarrow> PartialOptions option \<Rightarrow> 'o world
     \<Rightarrow> error + 'o world" where
  "loadSlpFilesInDolphin generateDolphinQueuePayload filenames options w =
     (let queue = slp_queue filenames;
          w1 = emit Caller [ConsoleLogQueue queue] w
      in if length queue = 0 then Inr w1
         else loadPayloadIntoDolphin (generateDolphinQueuePayload queue) options w1)"

text \<open>
  \<^verbatim>\<open>saveQueueToFile\<close>, lines 157-176. \<^verbatim>\<open>getFilePath\<close> (of \<^verbatim>\<open>@/lib/utils\<close>, not among
  the sources) resolves to the path the user chose, or to nothing: the parameter \<open>p\<close>.
  \<^verbatim>\<open>!p\<close> holds for \<^verbatim>\<open>undefined\<close> and for the empty string. \<open>JSON_stringify options queue\<close>
  stands for \<^verbatim>\<open>JSON.stringify({...options, queue}, undefined, 2)\<close>.
\<close>

definition saveQueueToFile ::
  "('o \<Rightarrow> DolphinEntry list \<Rightarrow> string) \<Rightarrow> string option \<Rightarrow> 'o world \<Rightarrow> error + 'o world" where
  "saveQueueToFile JSON_stringify p w =
     (case p of
        None \<Rightarrow> Inr (emit Caller [ConsoleError ''Could not save queue because path is undefined''] w)
      | Some file \<Rightarrow>
          (if file = [] then
             Inr (emit Caller [ConsoleError ''Could not save queue because path is undefined''] w)
           else fs_writeFile file (JSON_stringify (dolphinQueueOptions w) (dolphinQueue w)) w))"

section \<open>Vocabulary of the properties\<close>

text \<open>An input that changes the stored mode.\<close>

fun isLoadJSON :: "input \<Rightarrow> bool" where
  "isLoadJSON (LoadJSON f options) = True"
| "isLoadJSON i = False"

text \<open>
  The effects of the trace whose origin satisfies \<open>P\<close>, in order: those of one
  subscription, or all of them.
\<close>

definition effects :: "(origin \<Rightarrow> bool) \<Rightarrow> 'o world \<Rightarrow> effect list" where
  "effects P w = map snd (filter (\<lambda>x. P (fst x)) (trace w))"

abbreviation sub_trace :: "origin \<Rightarrow> 'o world \<Rightarrow> effect list" where
  "sub_trace og \<equiv> effects (\<lambda>og'. og' = og)"

abbreviation all_effects :: "'o world \<Rightarrow> effect list" where
  "all_effects \<equiv> effects (\<lambda>og'. True)"

text \<open>What no handler changes: the stored mode, the device, the clock, the process handle.\<close>

definition frame ::
  "'o world \<Rightarrow> (bool \<times> OBSRecordingAction \<times> OBSRecordingAction) \<times> bool \<times> bool \<times> nat \<times> string option" where
  "frame w =
     ((recordingEnabled w, startAction w, endAction w),
      obsConnected w, obsRecording w, clock w, dolphin w)"

definition mode :: "'o world \<Rightarrow> bool \<times> OBSRecordingAction \<times> OBSRecordingAction" where
  "mode w = fst (frame w)"

subsection \<open>One handler at a time\<close>

text \<open>
  A subscription is \<open>Waiting\<close> between handlers, \<open>Running\<close> inside one, and \<open>InFlight\<close>
  while the handler awaits a \<^verbatim>\<open>setRecordingState\<close>. \<open>advance\<close> reads one effect of the
  subscription; \<open>None\<close> is a violation: a handler called while another one runs, a device
  query, a command, a delay or a kill outside a handler, a second command while one is in
  flight, a handler settling while its command is in flight.
\<close>

datatype phase = Waiting | Running | InFlight

fun advance :: "phase option \<Rightarrow> effect \<Rightarrow> phase option" where
  "advance (Some Waiting) HandlerCalled = Some Running"
| "advance (Some Waiting) UnhandledError = Some Waiting"
| "advance (Some Running) (HandlerSettled ok) = Some Waiting"
| "advance (Some Running) (SetRecordingState a) = Some InFlight"
| "advance (Some InFlight) (CommandSettled ok) = Some Running"
| "advance (Some Running) (ConsoleLogPayload p) = Some Running"
| "advance (Some Running) (IsRecording r) = Some Running"
| "advance (Some Running) (DelayStarted n) = Some Running"
| "advance (Some Running) DelayElapsed = Some Running"
| "advance (Some Running) (BasenameNext b) = Some Running"
| "advance (Some Running) Kill = Some Running"
| "advance ph e = None"

definition serial :: "effect list \<Rightarrow> bool" where
  "serial es \<longleftrightarrow> foldl advance (Some Waiting) es \<noteq> None"

fun phase_of :: "susp option \<Rightarrow> phase" where
  "phase_of None = Waiting"
| "phase_of (Some (InDelay due)) = Running"
| "phase_of (Some (InCommand k)) = InFlight"
| "phase_of (Some (Returned ok)) = Waiting"

text \<open>The trace of the playback subscription agrees with where its handler is.\<close>

definition tracked :: "'o world \<Rightarrow> bool" where
  "tracked w \<longleftrightarrow>
     foldl advance (Some Waiting) (sub_trace StatusSub w) =
       Some (phase_of (active (statusPipe w)))"

subsection \<open>The order of the events\<close>

text \<open>
  \<open>handled\<close>: the payloads whose handler has been called, in the order of the calls
  (line 80 logs the payload first). \<open>accepted\<close>: the payloads that the playback source
  emitted while the subscription was alive and its \<^verbatim>\<open>filter\<close> true, in the order of
  emission.
\<close>

fun logged :: "effect \<Rightarrow> DolphinPlaybackPayload list" where
  "logged (ConsoleLogPayload payload) = [payload]"
| "logged e = []"

definition handled :: "'o world \<Rightarrow> DolphinPlaybackPayload list" where
  "handled w = concat (map logged (sub_trace StatusSub w))"

fun accepted :: "'o world \<Rightarrow> input list \<Rightarrow> DolphinPlaybackPayload list" where
  "accepted w [] = []"
| "accepted w (i # ins) =
     (case i of
        PlaybackStatus payload \<Rightarrow>
          if \<not> closed (statusPipe w) \<and> recordingEnabled w \<and> obsConnected w
          then [payload] else []
      | _ \<Rightarrow> []) @ accepted (step w i) ins"

text \<open>
  The payloads handled and those still held back; nothing is held back while no handler
  is active.
\<close>

definition pending :: "'o world \<Rightarrow> DolphinPlaybackPayload list" where
  "pending w = handled w @ buffer (statusPipe w)"

definition buffer_waits :: "'o world \<Rightarrow> bool" where
  "buffer_waits w \<longleftrightarrow> (active (statusPipe w) = None \<longrightarrow> buffer (statusPipe w) = [])"

subsection \<open>Commands in flight\<close>

text \<open>
  A command is in flight from the call of \<^verbatim>\<open>setRecordingState\<close> until its promise
  settles. \<open>flight\<close> counts over a trace and is \<open>None\<close> once a command is issued while
  another one is in flight.
\<close>

fun flight :: "nat option \<Rightarrow> effect \<Rightarrow> nat option" where
  "flight (Some n) (SetRecordingState a) = (if n = 0 then Some 1 else None)"
| "flight (Some n) (CommandSettled ok) = (if n = 1 then Some 0 else None)"
| "flight s e = s"

definition one_at_a_time :: "effect list \<Rightarrow> bool" where
  "one_at_a_time es \<longleftrightarrow> foldl flight (Some 0) es \<noteq> None"

fun in_flight :: "susp option \<Rightarrow> nat" where
  "in_flight (Some (InCommand k)) = 1"
| "in_flight s = 0"

subsection \<open>Concrete scenarios\<close>

definition recordingOptions :: "PartialOptions option" where
  "recordingOptions = Some \<lparr>opt_record = Some True, opt_pauseBetweenEntries = None\<rparr>"

text \<open>A queue loaded for recording, the device connected and not recording.\<close>

definition armed_world :: "unit world" where
  "armed_world = run (initial ''/tmp'' ()) [LoadJSON ''q.json'' recordingOptions, ObsState True False]"

text \<open>The same with the device recording.\<close>

definition recording_world :: "unit world" where
  "recording_world = run (loadJSON ''q.json'' recordingOptions (initial ''/tmp'' ())) [ObsState True True]"

definition start_payload :: DolphinPlaybackPayload where
  "start_payload = \<lparr>status = PLAYBACK_START, data = None\<rparr>"

definition end_payload :: DolphinPlaybackPayload where
  "end_payload = \<lparr>status = PLAYBACK_END, data = Some \<lparr>gameEnded = Some True\<rparr>\<rparr>"

definition skipped_payload :: DolphinPlaybackPayload where
  "skipped_payload = \<lparr>status = PLAYBACK_END, data = Some \<lparr>gameEnded = Some False\<rparr>\<rparr>"

definition empty_payload :: DolphinPlaybackPayload where
  "empty_payload = \<lparr>status = QUEUE_EMPTY, data = None\<rparr>"

definition rapid_events :: "input list" where
  "rapid_events =
     [LoadJSON ''q.json'' recordingOptions, ObsState True False,
      PlaybackStatus start_payload, PlaybackStatus end_payload,
      CommandDone StatusSub True, Delivered StatusSub, Advance 1000, TimerFired]"

text \<open>
  A playback handler awaits its command when the engine exits while the device is
  recording.
\<close>

definition overlap_events :: "input list" where
  "overlap_events =
     [LoadJSON ''q.json'' recordingOptions, ObsState True True,
      PlaybackStatus skipped_payload, DolphinQuit]"

text \<open>A stand-in for the library's serializer, for the concrete scenarios only.\<close>

definition payload_of_queue :: "DolphinEntry list \<Rightarrow> string" where
  "payload_of_queue queue = concat (map path queue)"

section \<open>Lemmas\<close>

lemma frame_fields:
  "frame w' = frame w \<Longrightarrow>
     recordingEnabled w' = recordingEnabled w \<and> startAction w' = startAction w \<and>
     endAction w' = endAction w \<and> obsConnected w' = obsConnected w \<and>
     obsRecording w' = obsRecording w \<and> clock w' = clock w \<and> dolphin w' = dolphin w"
  by (simp add: frame_def)

lemma effects_emit [simp]:
  "effects P (emit og es w) = effects P w @ (if P og then es else [])"
  by (simp add: effects_def emit_def filter_map comp_def)

lemma effects_update [simp]:
  "effects P (w\<lparr>currentBasename := b\<rparr>) = effects P w"
  "effects P (w\<lparr>statusPipe := p\<rparr>) = effects P w"
  "effects P (w\<lparr>quitPipe := q\<rparr>) = effects P w"
  "effects P (w\<lparr>obsConnected := c\<rparr>) = effects P w"
  "effects P (w\<lparr>obsRecording := r\<rparr>) = effects P w"
  "effects P (w\<lparr>clock := n\<rparr>) = effects P w"
  "effects P (w\<lparr>recordingEnabled := e\<rparr>) = effects P w"
  "effects P (w\<lparr>startAction := a\<rparr>) = effects P w"
  "effects P (w\<lparr>endAction := a\<rparr>) = effects P w"
  "effects P (w\<lparr>dolphin := d\<rparr>) = effects P w"
  by (simp_all add: effects_def)

lemma emit_fields [simp]:
  "statusPipe (emit og es w) = statusPipe w"
  "quitPipe (emit og es w) = quitPipe w"
  "frame (emit og es w) = frame w"
  "currentBasename (emit og es w) = currentBasename w"
  "recordingEnabled (emit og es w) = recordingEnabled w"
  "startAction (emit og es w) = startAction w"
  "endAction (emit og es w) = endAction w"
  "obsConnected (emit og es w) = obsConnected w"
  "obsRecording (emit og es w) = obsRecording w"
  "clock (emit og es w) = clock w"
  "dolphin (emit og es w) = dolphin w"
  by (simp_all add: emit_def frame_def)

lemma frame_update [simp]:
  "frame (w\<lparr>currentBasename := b\<rparr>) = frame w"
  "frame (w\<lparr>statusPipe := p\<rparr>) = frame w"
  "frame (w\<lparr>quitPipe := q\<rparr>) = frame w"
  by (simp_all add: frame_def)

subsection \<open>The handler segments, field by field\<close>

lemma stopRecording_tail_fields [simp]:
  "statusPipe (stopRecording_tail og k w) = statusPipe w"
  "quitPipe (stopRecording_tail og k w) = quitPipe w"
  "frame (stopRecording_tail og k w) = frame w"
  by (simp_all add: stopRecording_tail_def)

lemmas stopRecording_tail_env [simp] = frame_fields [OF stopRecording_tail_fields(3)]

lemma stopRecording_tail_trace:
  "effects P (stopRecording_tail og k w) =
     effects P w @ (if P og \<and> k \<and> dolphin w \<noteq> None then [Kill] else [])"
  by (simp add: stopRecording_tail_def)

lemma stopRecording_fields [simp]:
  "statusPipe (fst (stopRecording og k w)) = statusPipe w"
  "quitPipe (fst (stopRecording og k w)) = quitPipe w"
  "frame (fst (stopRecording og k w)) = frame w"
  by (simp_all add: stopRecording_def Let_def)

lemmas stopRecording_env [simp] = frame_fields [OF stopRecording_fields(3)]

lemma stopRecording_snd:
  "snd (stopRecording og k w) =
     (if obsRecording w then InCommand (StopTail k) else Returned True)"
  by (simp add: stopRecording_def Let_def)

lemma stopRecording_trace:
  "effects P (fst (stopRecording og k w)) =
     effects P w @
       (if P og
        then [BasenameNext '''', IsRecording (obsRecording w)] @
             (if obsRecording w then [SetRecordingState STOP]
              else if k \<and> dolphin w \<noteq> None then [Kill] else [])
        else [])"
  by (simp add: stopRecording_def Let_def stopRecording_tail_trace)

lemma issueEndAction_fields [simp]:
  "statusPipe (fst (issueEndAction w)) = statusPipe w"
  "quitPipe (fst (issueEndAction w)) = quitPipe w"
  "frame (fst (issueEndAction w)) = frame w"
  "snd (issueEndAction w) = InCommand Break"
  by (simp_all add: issueEndAction_def)

lemmas issueEndAction_env [simp] = frame_fields [OF issueEndAction_fields(3)]

lemma issueEndAction_trace:
  "effects P (fst (issueEndAction w)) =
     effects P w @ (if P StatusSub then [SetRecordingState (endAction w)] else [])"
  by (simp add: issueEndAction_def)

lemma handleDolphinPlayback_fields [simp]:
  "statusPipe (fst (handleDolphinPlayback payload w)) = statusPipe w"
  "quitPipe (fst (handleDolphinPlayback payload w)) = quitPipe w"
  "frame (fst (handleDolphinPlayback payload w)) = frame w"
  by (simp_all add: handleDolphinPlayback_def Let_def split: DolphinPlaybackStatus.split)

lemmas handleDolphinPlayback_env [simp] = frame_fields [OF handleDolphinPlayback_fields(3)]

lemma handleDolphinPlayback_snd:
  "snd (handleDolphinPlayback payload w) =
     (case status payload of
        PLAYBACK_START \<Rightarrow> InCommand Break
      | PLAYBACK_END \<Rightarrow>
          if data_gameEnded payload then InDelay (clock w + DELAY_AMOUNT_MS) else InCommand Break
      | QUEUE_EMPTY \<Rightarrow> if obsRecording w then InCommand (StopTail True) else Returned True
      | OTHER_STATUS \<Rightarrow> Returned True)"
  by (simp add: handleDolphinPlayback_def Let_def stopRecording_snd
           split: DolphinPlaybackStatus.split)

lemma handleDolphinPlayback_trace:
  "effects P (fst (handleDolphinPlayback payload w)) =
     effects P w @
       (if P StatusSub
        then ConsoleLogPayload payload #
          (case status payload of
             PLAYBACK_START \<Rightarrow>
               [IsRecording (obsRecording w),
                SetRecordingState (if obsRecording w then startAction w else START)]
           | PLAYBACK_END \<Rightarrow>
               if data_gameEnded payload then [DelayStarted DELAY_AMOUNT_MS]
               else [SetRecordingState (endAction w)]
           | QUEUE_EMPTY \<Rightarrow>
               [BasenameNext '''', IsRecording (obsRecording w)] @
               (if obsRecording w then [SetRecordingState STOP]
                else if dolphin w \<noteq> None then [Kill] else [])
           | OTHER_STATUS \<Rightarrow> [])
        else [])"
  by (simp add: handleDolphinPlayback_def Let_def stopRecording_trace issueEndAction_trace
           split: DolphinPlaybackStatus.split)

lemma afterCommand_fields [simp]:
  "statusPipe (fst (afterCommand og ok k w)) = statusPipe w"
  "quitPipe (fst (afterCommand og ok k w)) = quitPipe w"
  "frame (fst (afterCommand og ok k w)) = frame w"
  "snd (afterCommand og ok k w) = Returned ok"
  by (simp_all add: afterCommand_def split: kont.split)

lemmas afterCommand_env [simp] = frame_fields [OF afterCommand_fields(3)]

lemma afterCommand_trace:
  "effects P (fst (afterCommand og ok k w)) =
     effects P w @
       (if P og \<and> ok \<and> k = StopTail True \<and> dolphin w \<noteq> None then [Kill] else [])"
  by (cases k) (simp_all add: afterCommand_def stopRecording_tail_trace)

lemma settle_fields [simp]:
  "statusPipe (fst (settle og r)) = statusPipe (fst r)"
  "quitPipe (fst (settle og r)) = quitPipe (fst r)"
  "frame (fst (settle og r)) = frame (fst r)"
  "snd (settle og r) = snd r"
  by (simp_all add: settle_def split: susp.split)

lemmas settle_env [simp] = frame_fields [OF settle_fields(3)]

lemma settle_trace:
  "effects P (fst (settle og r)) =
     effects P (fst r) @
       (case snd r of Returned ok \<Rightarrow> if P og then [HandlerSettled ok] else [] | _ \<Rightarrow> [])"
  by (simp add: settle_def split: susp.split)

subsection \<open>The subscriptions, field by field\<close>

lemma status_run_fields [simp]:
  "statusPipe (status_run r) = (statusPipe (fst r))\<lparr>active := Some (snd r)\<rparr>"
  "quitPipe (status_run r) = quitPipe (fst r)"
  "frame (status_run r) = frame (fst r)"
  by (simp_all add: status_run_def Let_def)

lemmas status_run_env [simp] = frame_fields [OF status_run_fields(3)]

lemma status_run_trace:
  "effects P (status_run r) =
     effects P (fst r) @
       (case snd r of Returned ok \<Rightarrow> if P StatusSub then [HandlerSettled ok] else []
        | _ \<Rightarrow> [])"
  by (simp add: status_run_def Let_def settle_trace)

lemma quit_run_fields [simp]:
  "quitPipe (quit_run r) = (quitPipe (fst r))\<lparr>active := Some (snd r)\<rparr>"
  "statusPipe (quit_run r) = statusPipe (fst r)"
  "frame (quit_run r) = frame (fst r)"
  by (simp_all add: quit_run_def Let_def)

lemmas quit_run_env [simp] = frame_fields [OF quit_run_fields(3)]

lemma quit_run_trace:
  "effects P (quit_run r) =
     effects P (fst r) @
       (case snd r of Returned ok \<Rightarrow> if P QuitSub then [HandlerSettled ok] else []
        | _ \<Rightarrow> [])"
  by (simp add: quit_run_def Let_def settle_trace)

lemma status_project_fields [simp]:
  "statusPipe (status_project payload w) =
     (statusPipe w)\<lparr>active := Some (snd (handleDolphinPlayback payload w))\<rparr>"
  "quitPipe (status_project payload w) = quitPipe w"
  "frame (status_project payload w) = frame w"
  by (simp_all add: status_project_def handleDolphinPlayback_snd
        split: DolphinPlaybackStatus.split)

lemmas status_project_env [simp] = frame_fields [OF status_project_fields(3)]

lemma status_project_trace:
  "effects P (status_project payload w) =
     (if P StatusSub
      then effects P w @ [HandlerCalled] @
           drop (length (effects P w)) (effects P (fst (handleDolphinPlayback payload w))) @
           (case snd (handleDolphinPlayback payload w) of
              Returned ok \<Rightarrow> [HandlerSettled ok] | _ \<Rightarrow> [])
      else effects P w)"
  by (auto simp add: status_project_def status_run_trace handleDolphinPlayback_trace
                handleDolphinPlayback_snd
           split: DolphinPlaybackStatus.split)

lemma quit_project_fields [simp]:
  "quitPipe (quit_project w) =
     (quitPipe w)\<lparr>active := Some (snd (stopRecording QuitSub False w))\<rparr>"
  "statusPipe (quit_project w) = statusPipe w"
  "frame (quit_project w) = frame w"
  by (simp_all add: quit_project_def stopRecording_snd)

lemmas quit_project_env [simp] = frame_fields [OF quit_project_fields(3)]

lemma quit_project_trace:
  "effects P (quit_project w) =
     (if P QuitSub
      then effects P w @ [HandlerCalled] @
           drop (length (effects P w)) (effects P (fst (stopRecording QuitSub False w))) @
           (case snd (stopRecording QuitSub False w) of
              Returned ok \<Rightarrow> [HandlerSettled ok] | _ \<Rightarrow> [])
      else effects P w)"
  by (auto simp add: quit_project_def quit_run_trace stopRecording_trace stopRecording_snd)

lemmas op_defs =
  status_next_def status_delivered_def status_timer_def status_command_def
  quit_next_def quit_delivered_def quit_command_def filename_next_def

lemma mode_step: "\<not> isLoadJSON i \<Longrightarrow> mode (step w i) = mode w"
proof (cases i)
  case (ObsState c r)
  then show ?thesis by (simp add: mode_def frame_def)
next
  case (Advance n)
  then show ?thesis by (simp add: mode_def frame_def)
next
  case (CommandDone og ok)
  then show ?thesis
    by (simp add: mode_def op_defs split: origin.split option.split susp.split)
next
  case (Delivered og)
  then show ?thesis
    by (simp add: mode_def op_defs
             split: origin.split option.split susp.split list.split bool.split)
qed (simp_all add: mode_def op_defs Let_def split: option.split susp.split)

lemma mode_run: "\<forall>i\<in>set ins. \<not> isLoadJSON i \<Longrightarrow> mode (run w ins) = mode w"
  unfolding run_def
  by (induction ins arbitrary: w) (simp_all add: mode_step)

lemma mode_loadJSON:
  "mode (loadJSON f options w) =
     (let opts = Object_assign defaultDolphinPlayerOptions options
      in if record' opts
         then (True, if pauseBetweenEntries opts then UNPAUSE else START,
                     if pauseBetweenEntries opts then PAUSE else STOP)
         else (False, startAction w, endAction w))"
  by (simp add: loadJSON_def super_loadJSON_def mode_def frame_def Let_def)

lemma mode_armed:
  assumes "w = run (loadJSON f options w0) ins" and "\<forall>i\<in>set ins. \<not> isLoadJSON i"
    and "recordingEnabled w"
  shows "startAction w = (if pauseBetweenEntries (Object_assign defaultDolphinPlayerOptions options) then UNPAUSE else START)"
    and "endAction w = (if pauseBetweenEntries (Object_assign defaultDolphinPlayerOptions options) then PAUSE else STOP)"
proof -
  have "(recordingEnabled w, startAction w, endAction w) =
     (let opts = Object_assign defaultDolphinPlayerOptions options
      in if record' opts
         then (True, if pauseBetweenEntries opts then UNPAUSE else START,
                     if pauseBetweenEntries opts then PAUSE else STOP)
         else (False, startAction w0, endAction w0))"
    using mode_run[OF assms(2), of "loadJSON f options w0"] assms(1)
    by (simp add: mode_loadJSON) (simp add: mode_def frame_def)
  with assms(3) show "startAction w = (if pauseBetweenEntries (Object_assign defaultDolphinPlayerOptions options) then UNPAUSE else START)"
    and "endAction w = (if pauseBetweenEntries (Object_assign defaultDolphinPlayerOptions options) then PAUSE else STOP)"
    by (simp_all add: Let_def split: if_splits)
qed

subsection \<open>Serial handlers\<close>

lemma tracked_project:
  assumes "foldl advance (Some Waiting) (sub_trace StatusSub w) = Some Waiting"
  shows "foldl advance (Some Waiting) (sub_trace StatusSub (status_project payload w)) =
           Some (phase_of (Some (snd (handleDolphinPlayback payload w))))"
  using assms
  by (simp add: status_project_trace handleDolphinPlayback_trace
                handleDolphinPlayback_snd
           split: DolphinPlaybackStatus.split)

lemma tracked_step:
  assumes "tracked w"
  shows "tracked (step w i)"
proof (cases i)
  case (PlaybackStatus payload)
  then show ?thesis using assms
    by (simp add: tracked_def status_next_def tracked_project)
next
  case DolphinQuit
  then show ?thesis using assms
    by (simp add: tracked_def quit_next_def quit_project_trace)
next
  case (PlaybackFilename fullpath)
  then show ?thesis using assms by (simp add: tracked_def filename_next_def Let_def)
next
  case (LoadJSON f options)
  then show ?thesis using assms
    by (simp add: tracked_def loadJSON_def super_loadJSON_def Let_def)
next
  case (ObsState c r)
  then show ?thesis using assms by (simp add: tracked_def)
next
  case (Advance n)
  then show ?thesis using assms by (simp add: tracked_def)
next
  case TimerFired
  then show ?thesis using assms
    by (simp add: tracked_def status_timer_def status_run_trace issueEndAction_trace
             split: option.split susp.split)
next
  case (CommandDone og ok)
  show ?thesis
  proof (cases og)
    case StatusSub
    then show ?thesis using assms CommandDone
      by (simp add: tracked_def status_command_def status_run_trace afterCommand_trace
               split: option.split susp.split)
  next
    case QuitSub
    then show ?thesis using assms CommandDone
      by (simp add: tracked_def quit_command_def quit_run_trace afterCommand_trace
               split: option.split susp.split)
  qed (use assms CommandDone in simp_all)
next
  case (Delivered og)
  show ?thesis
  proof (cases og)
    case StatusSub
    then show ?thesis using assms Delivered
      by (simp add: tracked_def status_delivered_def tracked_project
               split: option.split susp.split list.split bool.split)
  next
    case QuitSub
    then show ?thesis using assms Delivered
      by (simp add: tracked_def quit_delivered_def quit_project_trace
               split: option.split susp.split list.split bool.split)
  qed (use assms Delivered in simp_all)
qed

subsection \<open>Traces grow, time does not run backwards\<close>

lemma effects_step: "prefix (effects P w) (effects P (step w i))"
proof (cases i)
  case (CommandDone og ok)
  then show ?thesis
    by (cases og)
       (simp_all add: status_command_def quit_command_def status_run_trace quit_run_trace
          afterCommand_trace split: option.split susp.split)
next
  case (Delivered og)
  then show ?thesis
    by (cases og)
       (simp_all add: status_delivered_def quit_delivered_def status_project_trace
          quit_project_trace split: option.split susp.split list.split bool.split)
next
  case TimerFired
  then show ?thesis
    by (simp add: status_timer_def status_run_trace issueEndAction_trace
          split: option.split susp.split)
qed (simp_all add: status_next_def quit_next_def filename_next_def loadJSON_def
       super_loadJSON_def Let_def status_project_trace quit_project_trace)

lemma effects_run: "prefix (effects P w) (effects P (run w ins))"
  unfolding run_def
proof (induction ins arbitrary: w)
  case (Cons i ins)
  show ?case using effects_step[of P w i] Cons[of "step w i"] by (auto intro: prefix_order.trans)
qed simp

lemma clock_step: "clock w \<le> clock (step w i)"
proof (cases i)
  case (CommandDone og ok)
  then show ?thesis
    by (cases og)
       (simp_all add: status_command_def quit_command_def split: option.split susp.split)
next
  case (Delivered og)
  then show ?thesis
    by (cases og)
       (simp_all add: status_delivered_def quit_delivered_def
          split: option.split susp.split list.split bool.split)
next
  case TimerFired
  then show ?thesis by (simp add: status_timer_def split: option.split susp.split)
qed (simp_all add: status_next_def quit_next_def filename_next_def loadJSON_def
       super_loadJSON_def Let_def)

lemma clock_run: "clock w \<le> clock (run w ins)"
  unfolding run_def
proof (induction ins arbitrary: w)
  case (Cons i ins)
  show ?case using clock_step[of w i] Cons[of "step w i"] by simp
qed simp

subsection \<open>A subscription that has ended\<close>

lemma ended_step:
  assumes "closed (statusPipe w)" and "active (statusPipe w) = None"
  shows "statusPipe (step w i) = statusPipe w \<and>
         sub_trace StatusSub (step w i) = sub_trace StatusSub w"
proof (cases i)
  case (CommandDone og ok)
  then show ?thesis using assms
    by (cases og)
       (simp_all add: status_command_def quit_command_def quit_run_trace afterCommand_trace
          split: option.split susp.split)
next
  case (Delivered og)
  then show ?thesis using assms
    by (cases og)
       (simp_all add: status_delivered_def quit_delivered_def quit_project_trace
          split: option.split susp.split list.split bool.split)
next
  case TimerFired
  then show ?thesis using assms by (simp add: status_timer_def)
qed (use assms in \<open>simp_all add: status_next_def quit_next_def filename_next_def loadJSON_def
       super_loadJSON_def Let_def quit_project_trace\<close>)

lemma ended_run:
  assumes "closed (statusPipe w)" and "active (statusPipe w) = None"
  shows "statusPipe (run w ins) = statusPipe w \<and>
         sub_trace StatusSub (run w ins) = sub_trace StatusSub w"
  using assms unfolding run_def
proof (induction ins arbitrary: w)
  case (Cons i ins)
  show ?case using ended_step[OF Cons.prems, of i] Cons.IH[of "step w i"] Cons.prems by simp
qed simp

lemma rejected_step:
  assumes "active (statusPipe w) = Some (Returned False)" and "i \<noteq> Delivered StatusSub"
  shows "active (statusPipe (step w i)) = Some (Returned False) \<and>
         sub_trace StatusSub (step w i) = sub_trace StatusSub w"
proof (cases i)
  case (CommandDone og ok)
  then show ?thesis using assms
    by (cases og)
       (simp_all add: status_command_def quit_command_def quit_run_trace afterCommand_trace
          split: option.split susp.split)
next
  case (Delivered og)
  then show ?thesis using assms
    by (cases og)
       (simp_all add: quit_delivered_def quit_project_trace
          split: option.split susp.split list.split bool.split)
next
  case TimerFired
  then show ?thesis using assms by (simp add: status_timer_def)
qed (use assms in \<open>simp_all add: status_next_def quit_next_def filename_next_def loadJSON_def
       super_loadJSON_def Let_def quit_project_trace\<close>)

lemma rejected_run:
  assumes "active (statusPipe w) = Some (Returned False)"
  shows "sub_trace StatusSub (run w ins) =
           sub_trace StatusSub w @ (if Delivered StatusSub \<in> set ins then [UnhandledError] else [])
         \<and> (Delivered StatusSub \<in> set ins \<longrightarrow> closed (statusPipe (run w ins)))"
  using assms
proof (induction ins arbitrary: w)
  case Nil
  then show ?case by (simp add: run_def)
next
  case (Cons i ins)
  show ?case
  proof (cases "i = Delivered StatusSub")
    case True
    let ?w' = "step w i"
    have 1: "closed (statusPipe ?w')" "active (statusPipe ?w') = None"
      "sub_trace StatusSub ?w' = sub_trace StatusSub w @ [UnhandledError]"
      using True Cons.prems by (simp_all add: status_delivered_def)
    from ended_run[OF 1(1,2), of ins] 1 True show ?thesis
      by (simp add: run_def)
  next
    case False
    from rejected_step[OF Cons.prems False] Cons.IH[of "step w i"] False
    show ?thesis by (simp add: run_def)
  qed
qed

lemma quit_ended_step:
  assumes "closed (quitPipe w)" and "active (quitPipe w) = None"
  shows "quitPipe (step w i) = quitPipe w \<and>
         sub_trace QuitSub (step w i) = sub_trace QuitSub w"
proof (cases i)
  case (CommandDone og ok)
  then show ?thesis using assms
    by (cases og)
       (simp_all add: status_command_def quit_command_def status_run_trace afterCommand_trace
          split: option.split susp.split)
next
  case (Delivered og)
  then show ?thesis using assms
    by (cases og)
       (simp_all add: status_delivered_def quit_delivered_def status_project_trace
          split: option.split susp.split list.split bool.split)
next
  case TimerFired
  then show ?thesis using assms
    by (simp add: status_timer_def status_run_trace issueEndAction_trace
          split: option.split susp.split)
qed (use assms in \<open>simp_all add: status_next_def quit_next_def filename_next_def loadJSON_def
       super_loadJSON_def Let_def status_project_trace\<close>)

lemma quit_ended_run:
  assumes "closed (quitPipe w)" and "active (quitPipe w) = None"
  shows "quitPipe (run w ins) = quitPipe w \<and>
         sub_trace QuitSub (run w ins) = sub_trace QuitSub w"
  using assms unfolding run_def
proof (induction ins arbitrary: w)
  case (Cons i ins)
  show ?case
    using quit_ended_step[OF Cons.prems, of i] Cons.IH[of "step w i"] Cons.prems by simp
qed simp

lemma quit_rejected_step:
  assumes "active (quitPipe w) = Some (Returned False)" and "i \<noteq> Delivered QuitSub"
  shows "active (quitPipe (step w i)) = Some (Returned False) \<and>
         sub_trace QuitSub (step w i) = sub_trace QuitSub w"
proof (cases i)
  case (CommandDone og ok)
  then show ?thesis using assms
    by (cases og)
       (simp_all add: status_command_def quit_command_def status_run_trace afterCommand_trace
          split: option.split susp.split)
next
  case (Delivered og)
  then show ?thesis using assms
    by (cases og)
       (simp_all add: status_delivered_def status_project_trace
          split: option.split susp.split list.split bool.split)
next
  case TimerFired
  then show ?thesis using assms
    by (simp add: status_timer_def status_run_trace issueEndAction_trace
          split: option.split susp.split)
qed (use assms in \<open>simp_all add: status_next_def quit_next_def filename_next_def loadJSON_def
       super_loadJSON_def Let_def status_project_trace\<close>)

lemma quit_rejected_run:
  assumes "active (quitPipe w) = Some (Returned False)"
  shows "sub_trace QuitSub (run w ins) =
           sub_trace QuitSub w @ (if Delivered QuitSub \<in> set ins then [UnhandledError] else [])
         \<and> (Delivered QuitSub \<in> set ins \<longrightarrow> closed (quitPipe (run w ins)))"
  using assms
proof (induction ins arbitrary: w)
  case Nil
  then show ?case by (simp add: run_def)
next
  case (Cons i ins)
  show ?case
  proof (cases "i = Delivered QuitSub")
    case True
    let ?w' = "step w i"
    have 1: "closed (quitPipe ?w')" "active (quitPipe ?w') = None"
      "sub_trace QuitSub ?w' = sub_trace QuitSub w @ [UnhandledError]"
      using True Cons.prems by (simp_all add: quit_delivered_def)
    from quit_ended_run[OF 1(1,2), of ins] 1 True show ?thesis
      by (simp add: run_def)
  next
    case False
    from quit_rejected_step[OF Cons.prems False] Cons.IH[of "step w i"] False
    show ?thesis by (simp add: run_def)
  qed
qed

subsection \<open>A handler in its settle delay\<close>

lemma delay_step:
  assumes "active (statusPipe v) = Some (InDelay due)"
    and "\<not> (i = TimerFired \<and> due \<le> clock v)"
  shows "active (statusPipe (step v i)) = Some (InDelay due) \<and>
         sub_trace StatusSub (step v i) = sub_trace StatusSub v"
proof (cases i)
  case (CommandDone og ok)
  then show ?thesis using assms
    by (cases og)
       (simp_all add: status_command_def quit_command_def quit_run_trace afterCommand_trace
          split: option.split susp.split)
next
  case (Delivered og)
  then show ?thesis using assms
    by (cases og)
       (simp_all add: status_delivered_def quit_delivered_def quit_project_trace
          split: option.split susp.split list.split bool.split)
next
  case TimerFired
  then show ?thesis using assms by (simp add: status_timer_def)
qed (use assms in \<open>simp_all add: status_next_def quit_next_def filename_next_def loadJSON_def
       super_loadJSON_def Let_def quit_project_trace\<close>)

lemma delay_fire:
  assumes "active (statusPipe v) = Some (InDelay due)" and "due \<le> clock v"
  shows "sub_trace StatusSub (step v TimerFired) =
           sub_trace StatusSub v @ [DelayElapsed, SetRecordingState (endAction v)]"
  using assms by (simp add: status_timer_def status_run_trace issueEndAction_trace)

lemma delay_run:
  assumes "active (statusPipe v) = Some (InDelay due)" and "\<forall>i\<in>set ins. \<not> isLoadJSON i"
  shows "\<exists>rest. sub_trace StatusSub (run v ins) = sub_trace StatusSub v @ rest \<and>
           (rest = [] \<or> prefix [DelayElapsed, SetRecordingState (endAction v)] rest) \<and>
           (clock (run v ins) < due \<longrightarrow> rest = [])"
  using assms
proof (induction ins arbitrary: v)
  case Nil
  then show ?case by (simp add: run_def)
next
  case (Cons i ins)
  let ?v' = "step v i"
  have run: "run v (i # ins) = run ?v' ins" by (simp add: run_def)
  show ?case
  proof (cases "i = TimerFired \<and> due \<le> clock v")
    case True
    have fired: "sub_trace StatusSub ?v' =
        sub_trace StatusSub v @ [DelayElapsed, SetRecordingState (endAction v)]"
      using delay_fire[OF Cons.prems(1)] True by simp
    obtain t where t: "sub_trace StatusSub (run ?v' ins) = sub_trace StatusSub ?v' @ t"
      using effects_run[of "\<lambda>og'. og' = StatusSub" ?v' ins] by (auto simp: prefix_def)
    have "due \<le> clock (run ?v' ins)"
      using True clock_step[of v i] clock_run[of ?v' ins] by simp
    with t fired run show ?thesis by simp
  next
    case False
    from delay_step[OF Cons.prems(1) False]
    have same: "active (statusPipe ?v') = Some (InDelay due)"
      "sub_trace StatusSub ?v' = sub_trace StatusSub v" by simp_all
    have "mode ?v' = mode v" using Cons.prems(2) by (simp add: mode_step)
    then have e: "endAction ?v' = endAction v" by (simp add: mode_def frame_def)
    from Cons.IH[OF same(1)] Cons.prems(2) same(2) e run show ?thesis by simp
  qed
qed

lemma run_append: "run w (xs @ ys) = run (run w xs) ys"
  by (simp add: run_def)

lemma delay_still:
  assumes "active (statusPipe v) = Some (InDelay due)" and "\<forall>i\<in>set ins. \<not> isLoadJSON i"
  shows "sub_trace StatusSub (run v ins) = sub_trace StatusSub v \<longrightarrow>
           active (statusPipe (run v ins)) = Some (InDelay due) \<and>
           endAction (run v ins) = endAction v"
  using assms
proof (induction ins arbitrary: v)
  case Nil
  then show ?case by (simp add: run_def)
next
  case (Cons i ins)
  let ?v' = "step v i"
  have run: "run v (i # ins) = run ?v' ins" by (simp add: run_def)
  show ?case
  proof (cases "i = TimerFired \<and> due \<le> clock v")
    case True
    have fired: "sub_trace StatusSub ?v' =
        sub_trace StatusSub v @ [DelayElapsed, SetRecordingState (endAction v)]"
      using delay_fire[OF Cons.prems(1)] True by simp
    obtain t where t: "sub_trace StatusSub (run ?v' ins) = sub_trace StatusSub ?v' @ t"
      using effects_run[of "\<lambda>og'. og' = StatusSub" ?v' ins] by (auto simp: prefix_def)
    with fired run show ?thesis by simp
  next
    case False
    from delay_step[OF Cons.prems(1) False]
    have same: "active (statusPipe ?v') = Some (InDelay due)"
      "sub_trace StatusSub ?v' = sub_trace StatusSub v" by simp_all
    have "mode ?v' = mode v" using Cons.prems(2) by (simp add: mode_step)
    then have e: "endAction ?v' = endAction v" by (simp add: mode_def frame_def)
    from Cons.IH[OF same(1)] Cons.prems(2) same(2) e run show ?thesis by simp
  qed
qed

lemma delay_fired_run:
  assumes "active (statusPipe v) = Some (InDelay due)"
    and "\<forall>i\<in>set ins1. \<not> isLoadJSON i" and "due \<le> clock (run v ins1)"
  shows "\<exists>t. sub_trace StatusSub (run v (ins1 @ TimerFired # ins2)) =
           sub_trace StatusSub v @ [DelayElapsed, SetRecordingState (endAction v)] @ t"
proof -
  let ?v1 = "run v ins1"
  let ?v2 = "step ?v1 TimerFired"
  have r: "run v (ins1 @ TimerFired # ins2) = run ?v2 ins2"
    by (simp add: run_def)
  obtain t2 where t2: "sub_trace StatusSub (run ?v2 ins2) = sub_trace StatusSub ?v2 @ t2"
    using effects_run[of "\<lambda>og'. og' = StatusSub" ?v2 ins2] by (auto simp: prefix_def)
  obtain t1 where t1: "sub_trace StatusSub ?v2 = sub_trace StatusSub ?v1 @ t1"
    using effects_step[of "\<lambda>og'. og' = StatusSub" ?v1 TimerFired] by (auto simp: prefix_def)
  from delay_run[OF assms(1,2)] obtain rest where
    rest: "sub_trace StatusSub ?v1 = sub_trace StatusSub v @ rest"
      "rest = [] \<or> prefix [DelayElapsed, SetRecordingState (endAction v)] rest"
    by blast
  show ?thesis
  proof (cases "rest = []")
    case True
    with rest(1) delay_still[OF assms(1,2)]
    have a: "active (statusPipe ?v1) = Some (InDelay due)" "endAction ?v1 = endAction v"
      "sub_trace StatusSub ?v1 = sub_trace StatusSub v"
      by simp_all
    from delay_fire[OF a(1) assms(3)] a(2,3) t2 r show ?thesis by simp
  next
    case False
    with rest(2) obtain u where "rest = [DelayElapsed, SetRecordingState (endAction v)] @ u"
      by (auto simp: prefix_def)
    with rest(1) t1 t2 r show ?thesis by simp
  qed
qed

subsection \<open>Events are handled in the order of their arrival\<close>

lemma handled_project: "handled (status_project payload w) = handled w @ [payload]"
  by (auto simp add: handled_def status_project_trace handleDolphinPlayback_trace
        handleDolphinPlayback_snd split: DolphinPlaybackStatus.split)

lemma handled_update [simp]: "handled (w\<lparr>statusPipe := p\<rparr>) = handled w"
  by (simp add: handled_def)

lemma order_step:
  assumes "buffer_waits w"
  shows "buffer_waits (step w i) \<and> prefix (pending (step w i)) (pending w @ accepted w [i]) \<and>
         (\<not> closed (statusPipe (step w i)) \<longrightarrow> pending (step w i) = pending w @ accepted w [i])"
proof (cases i)
  case (PlaybackStatus payload)
  then show ?thesis using assms
    by (simp add: buffer_waits_def pending_def status_next_def handled_project)
next
  case (CommandDone og ok)
  then show ?thesis using assms
    by (cases og)
       (simp_all add: buffer_waits_def pending_def handled_def status_command_def quit_command_def
          status_run_trace quit_run_trace afterCommand_trace split: option.split susp.split)
next
  case (Delivered og)
  then show ?thesis using assms
    by (cases og)
       (simp_all add: buffer_waits_def pending_def status_delivered_def quit_delivered_def
          handled_project quit_project_trace
          split: option.split susp.split list.split bool.split,
        simp_all add: handled_def quit_project_trace)
next
  case TimerFired
  then show ?thesis using assms
    by (simp add: buffer_waits_def pending_def handled_def status_timer_def status_run_trace
          issueEndAction_trace split: option.split susp.split)
qed (use assms in \<open>simp_all add: buffer_waits_def pending_def handled_def quit_next_def filename_next_def
       loadJSON_def super_loadJSON_def Let_def quit_project_trace\<close>)

lemma closed_step:
  assumes "closed (statusPipe w)"
  shows "closed (statusPipe (step w i))"
proof (cases i)
  case (CommandDone og ok)
  then show ?thesis using assms
    by (cases og)
       (simp_all add: status_command_def quit_command_def split: option.split susp.split)
next
  case (Delivered og)
  then show ?thesis using assms
    by (cases og)
       (simp_all add: status_delivered_def quit_delivered_def
          split: option.split susp.split list.split bool.split)
next
  case TimerFired
  then show ?thesis using assms by (simp add: status_timer_def split: option.split susp.split)
qed (use assms in \<open>simp_all add: status_next_def quit_next_def filename_next_def loadJSON_def
       super_loadJSON_def Let_def\<close>)

lemma closed_run: "closed (statusPipe w) \<Longrightarrow> closed (statusPipe (run w ins))"
  unfolding run_def by (induction ins arbitrary: w) (simp_all add: closed_step)

lemma accepted_closed: "closed (statusPipe w) \<Longrightarrow> accepted w ins = []"
  by (induction ins arbitrary: w) (simp_all add: closed_step split: input.split)

lemma order_run:
  assumes "buffer_waits w"
  shows "prefix (handled (run w ins)) (pending w @ accepted w ins) \<and>
         (\<not> closed (statusPipe (run w ins)) \<longrightarrow> pending (run w ins) = pending w @ accepted w ins)"
  using assms
proof (induction ins arbitrary: w)
  case Nil
  then show ?case by (simp add: run_def pending_def)
next
  case (Cons i ins)
  let ?w' = "step w i"
  have run: "run w (i # ins) = run ?w' ins" by (simp add: run_def)
  have acc: "accepted w (i # ins) = accepted w [i] @ accepted ?w' ins" by simp
  from order_step[OF Cons.prems, of i]
  have st: "buffer_waits ?w'" "prefix (pending ?w') (pending w @ accepted w [i])"
    "\<not> closed (statusPipe ?w') \<Longrightarrow> pending ?w' = pending w @ accepted w [i]" by simp_all
  note IH = Cons.IH[OF st(1)]
  show ?case
  proof (cases "closed (statusPipe ?w')")
    case True
    then have "accepted ?w' ins = []" by (rule accepted_closed)
    with IH have "prefix (handled (run ?w' ins)) (pending ?w')" by simp
    then have "prefix (handled (run ?w' ins)) (pending w @ accepted w [i])"
      using st(2) by (rule prefix_order.trans)
    then have "prefix (handled (run ?w' ins)) ((pending w @ accepted w [i]) @ accepted ?w' ins)"
      by (rule prefix_prefix)
    with closed_run[OF True, of ins] show ?thesis unfolding run acc by simp
  next
    case False
    with st(3) IH show ?thesis unfolding run acc by simp
  qed
qed

subsection \<open>Commands in flight\<close>

lemma flight_project:
  assumes "foldl flight (Some 0) (all_effects w) = Some 0"
  shows "foldl flight (Some 0) (all_effects (status_project payload w)) =
           Some (in_flight (Some (snd (handleDolphinPlayback payload w))))"
  using assms
  by (simp add: status_project_trace handleDolphinPlayback_trace handleDolphinPlayback_snd
        split: DolphinPlaybackStatus.split)

lemma flight_step:
  assumes "foldl flight (Some 0) (all_effects w) = Some (in_flight (active (statusPipe w)))"
    and "active (quitPipe w) = None" and "i \<noteq> DolphinQuit"
  shows "foldl flight (Some 0) (all_effects (step w i)) =
           Some (in_flight (active (statusPipe (step w i)))) \<and>
         active (quitPipe (step w i)) = None"
proof (cases i)
  case (PlaybackStatus payload)
  then show ?thesis using assms by (simp add: status_next_def flight_project)
next
  case (CommandDone og ok)
  then show ?thesis using assms
    by (cases og)
       (simp_all add: status_command_def quit_command_def status_run_trace afterCommand_trace
          split: option.split susp.split)
next
  case (Delivered og)
  then show ?thesis using assms
    by (cases og)
       (simp_all add: status_delivered_def quit_delivered_def flight_project
          split: option.split susp.split list.split bool.split)
next
  case TimerFired
  then show ?thesis using assms
    by (simp add: status_timer_def status_run_trace issueEndAction_trace
          split: option.split susp.split)
qed (use assms in \<open>simp_all add: filename_next_def loadJSON_def super_loadJSON_def Let_def\<close>)

lemma flight_run:
  assumes "foldl flight (Some 0) (all_effects w) = Some (in_flight (active (statusPipe w)))"
    and "active (quitPipe w) = None" and "\<forall>i\<in>set ins. i \<noteq> DolphinQuit"
  shows "foldl flight (Some 0) (all_effects (run w ins)) =
           Some (in_flight (active (statusPipe (run w ins))))"
  using assms unfolding run_def
proof (induction ins arbitrary: w)
  case (Cons i ins)
  from flight_step[OF Cons.prems(1,2), of i] Cons.prems(3)
  have "foldl flight (Some 0) (all_effects (step w i)) =
           Some (in_flight (active (statusPipe (step w i))))"
    "active (quitPipe (step w i)) = None" by simp_all
  from Cons.IH[OF this] Cons.prems(3) show ?case by simp
qed simp

lemma tracked_run: "tracked w \<Longrightarrow> tracked (run w ins)"
  unfolding run_def by (induction ins arbitrary: w) (simp_all add: tracked_step)

lemmas eval_defs =
  run_def initial_def idle_def recordingOptions_def armed_world_def start_payload_def
  end_payload_def empty_payload_def
  status_next_def status_delivered_def status_timer_def status_command_def
  status_project_def status_run_def
  quit_next_def quit_delivered_def quit_command_def quit_project_def quit_run_def
  filename_next_def loadJSON_def super_loadJSON_def Object_assign_def
  defaultDolphinPlayerOptions_def handleDolphinPlayback_def stopRecording_def
  stopRecording_tail_def issueEndAction_def afterCommand_def settle_def emit_def
  data_gameEnded_def DELAY_AMOUNT_MS_def Let_def

lemma armed_world_eval:
  "armed_world =
     \<lparr>recordingEnabled = True, startAction = UNPAUSE, endAction = PAUSE,
      currentBasename = '''', dolphin = Some ''q.json'', statusPipe = idle, quitPipe = idle,
      obsConnected = True, obsRecording = False, clock = 0, tempFolder = ''/tmp'',
      writable = True, files = [], dolphinQueue = [], dolphinQueueOptions = (),
      trace = [(Caller, Launch ''q.json'')]\<rparr>"
  by (simp add: eval_defs)

lemma tracked_initial: "tracked (initial tmp qo)"
  by (simp add: tracked_def initial_def idle_def effects_def)

lemma recording_world_eval:
  "recording_world =
     \<lparr>recordingEnabled = True, startAction = UNPAUSE, endAction = PAUSE,
      currentBasename = '''', dolphin = Some ''q.json'', statusPipe = idle, quitPipe = idle,
      obsConnected = True, obsRecording = True, clock = 0, tempFolder = ''/tmp'',
      writable = True, files = [], dolphinQueue = [], dolphinQueueOptions = (),
      trace = [(Caller, Launch ''q.json'')]\<rparr>"
  by (simp add: recording_world_def eval_defs)

section \<open>The claims\<close>

text \<open>
  Claim C1, as stated, fails in its last clause. The engine-exit signal is handled by a
  subscription of its own (lines 59-63). Here a \<^verbatim>\<open>PLAYBACK_END\<close> handler has issued \<open>PAUSE\<close>
  and awaits it when the engine exits; the device reports that it is recording, and the
  exit handler issues \<open>STOP\<close> while the \<open>PAUSE\<close> is still in flight.
\<close>

theorem engine_exit_overlap_counterexample:
  "trace (run (initial ''/tmp'' ()) overlap_events) =
     [(Caller, Launch ''q.json''), (StatusSub, HandlerCalled),
      (StatusSub, ConsoleLogPayload skipped_payload), (StatusSub, SetRecordingState PAUSE),
      (QuitSub, HandlerCalled), (QuitSub, BasenameNext ''''), (QuitSub, IsRecording True),
      (QuitSub, SetRecordingState STOP)] \<and>
   \<not> one_at_a_time (all_effects (run (initial ''/tmp'' ()) overlap_events))"
  by (simp add: overlap_events_def eval_defs skipped_payload_def effects_def one_at_a_time_def)

text \<open>
  Claim C1, amended. From the loaded module on and for every sequence of inputs, the
  effects of the playback-status subscription are serial: a handler is called only when
  the previous one has settled, every device query, delay, command and kill lies inside
  the one running handler, and no command is issued while another one of this
  subscription is in flight. The handlers are called in the order in which the events
  passed the gate: the payloads handled so far, followed by those that wait in the buffer,
  are the accepted payloads. In a run without the engine-exit signal no two commands at
  all are in flight together.
\<close>

theorem playback_events_serial_in_order:
  "serial (sub_trace StatusSub (run (initial tmp qo) ins)) \<and>
   prefix (handled (run (initial tmp qo) ins)) (accepted (initial tmp qo) ins) \<and>
   (\<not> closed (statusPipe (run (initial tmp qo) ins)) \<longrightarrow>
      handled (run (initial tmp qo) ins) @ buffer (statusPipe (run (initial tmp qo) ins)) =
        accepted (initial tmp qo) ins) \<and>
   ((\<forall>i\<in>set ins. i \<noteq> DolphinQuit) \<longrightarrow> one_at_a_time (all_effects (run (initial tmp qo) ins)))"
proof -
  let ?w0 = "initial tmp qo :: 'a world"
  have "tracked (run ?w0 ins)" by (rule tracked_run[OF tracked_initial])
  then have 1: "serial (sub_trace StatusSub (run ?w0 ins))"
    by (simp add: tracked_def serial_def)
  have w: "buffer_waits ?w0" "pending ?w0 = []"
    by (simp_all add: buffer_waits_def pending_def handled_def initial_def idle_def effects_def)
  from order_run[OF w(1), of ins] w(2)
  have 2: "prefix (handled (run ?w0 ins)) (accepted ?w0 ins)"
    and 3: "\<not> closed (statusPipe (run ?w0 ins)) \<longrightarrow>
      handled (run ?w0 ins) @ buffer (statusPipe (run ?w0 ins)) = accepted ?w0 ins"
    by (simp_all add: pending_def)
  have f: "foldl flight (Some 0) (all_effects ?w0) = Some (in_flight (active (statusPipe ?w0)))"
    "active (quitPipe ?w0) = None"
    by (simp_all add: initial_def idle_def effects_def)
  have 4: "(\<forall>i\<in>set ins. i \<noteq> DolphinQuit) \<longrightarrow> one_at_a_time (all_effects (run ?w0 ins))"
    using flight_run[OF f, of ins] by (simp add: one_at_a_time_def)
  from 1 2 3 4 show ?thesis by blast
qed

theorem playback_events_serial_in_order_witness:
  "DolphinQuit \<notin> set rapid_events \<and>
   \<not> closed (statusPipe (run (initial ''/tmp'' ()) rapid_events)) \<and>
   serial (sub_trace StatusSub (run (initial ''/tmp'' ()) rapid_events)) \<and>
   one_at_a_time (all_effects (run (initial ''/tmp'' ()) rapid_events)) \<and>
   accepted (initial ''/tmp'' ()) rapid_events = [start_payload, end_payload] \<and>
   handled (run (initial ''/tmp'' ()) rapid_events) @
     buffer (statusPipe (run (initial ''/tmp'' ()) rapid_events)) = [start_payload, end_payload]"
proof -
  have a: "\<forall>i\<in>set rapid_events. i \<noteq> DolphinQuit"
    by (simp add: rapid_events_def)
  have b: "\<not> closed (statusPipe (run (initial ''/tmp'' ()) rapid_events))"
    by (simp add: rapid_events_def) (simp add: eval_defs)
  have c: "accepted (initial ''/tmp'' ()) rapid_events = [start_payload, end_payload]"
    by (simp add: rapid_events_def) (simp add: eval_defs)
  from a b c playback_events_serial_in_order[of "''/tmp''" "()" rapid_events]
  show ?thesis by auto
qed

text \<open>
  Claim C2, as stated, fails: after a rejected command the next playback event, arriving
  with the gate armed, is not handled. The trace below ends with the unhandled error of
  the first event; the second event adds nothing to it.
\<close>

theorem rejected_command_counterexample:
  "recordingEnabled (run armed_world [PlaybackStatus start_payload, CommandDone StatusSub False, Delivered StatusSub]) \<and>
   obsConnected (run armed_world [PlaybackStatus start_payload, CommandDone StatusSub False, Delivered StatusSub]) \<and>
   trace (run armed_world [PlaybackStatus start_payload, CommandDone StatusSub False, Delivered StatusSub, PlaybackStatus start_payload]) =
     [(Caller, Launch ''q.json''), (StatusSub, HandlerCalled),
      (StatusSub, ConsoleLogPayload start_payload), (StatusSub, IsRecording False),
      (StatusSub, SetRecordingState START), (StatusSub, CommandSettled False),
      (StatusSub, HandlerSettled False), (StatusSub, UnhandledError)]"
  by (simp add: armed_world_eval) (simp add: eval_defs)

text \<open>
  Claim C2, amended. When the \<^verbatim>\<open>setRecordingState\<close> that a handler awaits is rejected, be it
  the handler of a playback event or that of the engine-exit signal, the handler does not
  catch the rejection: its promise rejects, and once that is delivered the subscription
  that called it has ended with an unhandled error. Whatever arrives afterwards, that
  subscription performs nothing more.
\<close>

theorem rejected_command_ends_subscription:
  "(active (statusPipe w) = Some (InCommand k) \<longrightarrow>
      sub_trace StatusSub (run w (CommandDone StatusSub False # ins)) =
        sub_trace StatusSub w @ [CommandSettled False, HandlerSettled False] @
          (if Delivered StatusSub \<in> set ins then [UnhandledError] else []) \<and>
      (Delivered StatusSub \<in> set ins \<longrightarrow>
         closed (statusPipe (run w (CommandDone StatusSub False # ins))))) \<and>
   (active (quitPipe w) = Some (InCommand k) \<longrightarrow>
      sub_trace QuitSub (run w (CommandDone QuitSub False # ins)) =
        sub_trace QuitSub w @ [CommandSettled False, HandlerSettled False] @
          (if Delivered QuitSub \<in> set ins then [UnhandledError] else []) \<and>
      (Delivered QuitSub \<in> set ins \<longrightarrow>
         closed (quitPipe (run w (CommandDone QuitSub False # ins)))))"
proof -
  have s: "sub_trace StatusSub (run w (CommandDone StatusSub False # ins)) =
        sub_trace StatusSub w @ [CommandSettled False, HandlerSettled False] @
          (if Delivered StatusSub \<in> set ins then [UnhandledError] else []) \<and>
      (Delivered StatusSub \<in> set ins \<longrightarrow>
         closed (statusPipe (run w (CommandDone StatusSub False # ins))))"
    if a: "active (statusPipe w) = Some (InCommand k)"
  proof -
    let ?w' = "step w (CommandDone StatusSub False)"
    have 1: "active (statusPipe ?w') = Some (Returned False)"
      "sub_trace StatusSub ?w' = sub_trace StatusSub w @ [CommandSettled False, HandlerSettled False]"
      using a by (simp_all add: status_command_def status_run_trace afterCommand_trace)
    have "run w (CommandDone StatusSub False # ins) = run ?w' ins" by (simp add: run_def)
    with rejected_run[OF 1(1), of ins] 1(2) show ?thesis by simp
  qed
  have q: "sub_trace QuitSub (run w (CommandDone QuitSub False # ins)) =
        sub_trace QuitSub w @ [CommandSettled False, HandlerSettled False] @
          (if Delivered QuitSub \<in> set ins then [UnhandledError] else []) \<and>
      (Delivered QuitSub \<in> set ins \<longrightarrow>
         closed (quitPipe (run w (CommandDone QuitSub False # ins))))"
    if a: "active (quitPipe w) = Some (InCommand k)"
  proof -
    let ?w' = "step w (CommandDone QuitSub False)"
    have 1: "active (quitPipe ?w') = Some (Returned False)"
      "sub_trace QuitSub ?w' = sub_trace QuitSub w @ [CommandSettled False, HandlerSettled False]"
      using a by (simp_all add: quit_command_def quit_run_trace afterCommand_trace)
    have "run w (CommandDone QuitSub False # ins) = run ?w' ins" by (simp add: run_def)
    with quit_rejected_run[OF 1(1), of ins] 1(2) show ?thesis by simp
  qed
  from s q show ?thesis by blast
qed

theorem rejected_command_ends_subscription_witness:
  "active (statusPipe (run armed_world [PlaybackStatus start_payload])) = Some (InCommand Break) \<and>
   sub_trace StatusSub
     (run (run armed_world [PlaybackStatus start_payload])
        [CommandDone StatusSub False, Delivered StatusSub, PlaybackStatus start_payload]) =
     [HandlerCalled, ConsoleLogPayload start_payload, IsRecording False, SetRecordingState START,
      CommandSettled False, HandlerSettled False, UnhandledError] \<and>
   closed (statusPipe
     (run (run armed_world [PlaybackStatus start_payload])
        [CommandDone StatusSub False, Delivered StatusSub, PlaybackStatus start_payload])) \<and>
   active (quitPipe (run recording_world [DolphinQuit])) = Some (InCommand (StopTail False)) \<and>
   sub_trace QuitSub
     (run (run recording_world [DolphinQuit])
        [CommandDone QuitSub False, Delivered QuitSub, DolphinQuit]) =
     [HandlerCalled, BasenameNext '''', IsRecording True, SetRecordingState STOP,
      CommandSettled False, HandlerSettled False, UnhandledError] \<and>
   closed (quitPipe
     (run (run recording_world [DolphinQuit])
        [CommandDone QuitSub False, Delivered QuitSub, DolphinQuit]))"
proof -
  have a: "active (statusPipe (run armed_world [PlaybackStatus start_payload])) = Some (InCommand Break)"
    by (simp add: armed_world_eval) (simp add: eval_defs)
  have b: "sub_trace StatusSub (run armed_world [PlaybackStatus start_payload]) =
     [HandlerCalled, ConsoleLogPayload start_payload, IsRecording False, SetRecordingState START]"
    by (simp add: armed_world_eval) (simp add: eval_defs effects_def)
  have c: "active (quitPipe (run recording_world [DolphinQuit])) = Some (InCommand (StopTail False))"
    by (simp add: recording_world_eval) (simp add: eval_defs)
  have d: "sub_trace QuitSub (run recording_world [DolphinQuit]) =
     [HandlerCalled, BasenameNext '''', IsRecording True, SetRecordingState STOP]"
    by (simp add: recording_world_eval) (simp add: eval_defs effects_def)
  from rejected_command_ends_subscription
         [of "run armed_world [PlaybackStatus start_payload]" Break
             "[Delivered StatusSub, PlaybackStatus start_payload]"]
       rejected_command_ends_subscription
         [of "run recording_world [DolphinQuit]" "StopTail False" "[Delivered QuitSub, DolphinQuit]"]
       a b c d
  show ?thesis by simp
qed

text \<open>
  Claim C3, as stated, fails: with recording enabled and the device connected but not
  recording, the handler of a \<^verbatim>\<open>QUEUE_EMPTY\<close> event runs to its end, kills the engine
  process and issues no command.
\<close>

theorem queue_empty_counterexample:
  "recordingEnabled armed_world \<and> obsConnected armed_world \<and>
   trace (run armed_world [PlaybackStatus empty_payload]) =
     [(Caller, Launch ''q.json''), (StatusSub, HandlerCalled),
      (StatusSub, ConsoleLogPayload empty_payload), (StatusSub, BasenameNext ''''),
      (StatusSub, IsRecording False), (StatusSub, Kill), (StatusSub, HandlerSettled True)]"
  by (simp add: armed_world_eval) (simp add: eval_defs)

text \<open>
  Claim C3, amended. The handler of a \<^verbatim>\<open>QUEUE_EMPTY\<close> event resets the basename, asks the
  device whether it is recording, and issues \<open>STOP\<close> exactly when it is, whatever the
  stored start and end actions are. The engine process, when there is a handle of it, is
  killed at once when no command was needed, and after the \<open>STOP\<close> has succeeded
  otherwise.
\<close>

theorem queue_empty_stops_when_recording:
  assumes "status payload = QUEUE_EMPTY"
  shows "sub_trace StatusSub (status_project payload w) =
           sub_trace StatusSub w @
             [HandlerCalled, ConsoleLogPayload payload, BasenameNext '''',
              IsRecording (obsRecording w)] @
             (if obsRecording w then [SetRecordingState STOP]
              else (if dolphin w \<noteq> None then [Kill] else []) @ [HandlerSettled True]) \<and>
         (obsRecording w \<longrightarrow>
            sub_trace StatusSub (status_command True (status_project payload w)) =
              sub_trace StatusSub (status_project payload w) @
                [CommandSettled True] @ (if dolphin w \<noteq> None then [Kill] else []) @
                [HandlerSettled True])"
  using assms
  by (simp add: status_project_trace handleDolphinPlayback_trace handleDolphinPlayback_snd
        status_command_def status_run_trace afterCommand_trace)

theorem queue_empty_stops_when_recording_witness:
  "status empty_payload = QUEUE_EMPTY \<and>
   sub_trace StatusSub (status_project empty_payload (step armed_world (ObsState True True))) =
     [HandlerCalled, ConsoleLogPayload empty_payload, BasenameNext '''', IsRecording True,
      SetRecordingState STOP] \<and>
   sub_trace StatusSub
     (status_command True (status_project empty_payload (step armed_world (ObsState True True)))) =
     [HandlerCalled, ConsoleLogPayload empty_payload, BasenameNext '''', IsRecording True,
      SetRecordingState STOP, CommandSettled True, Kill, HandlerSettled True]"
proof -
  have a: "status empty_payload = QUEUE_EMPTY" by (simp add: empty_payload_def)
  have b: "sub_trace StatusSub (step armed_world (ObsState True True)) = []"
    "obsRecording (step armed_world (ObsState True True))"
    "dolphin (step armed_world (ObsState True True)) = Some ''q.json''"
    by (simp_all add: armed_world_eval effects_def)
  from queue_empty_stops_when_recording[OF a, of "step armed_world (ObsState True True)"] b
  show ?thesis by (simp add: a)
qed

text \<open>
  Claim C4. When recording is disabled or the device is not connected, a playback event
  of any kind and the engine-exit signal leave the whole state as it is: nothing is
  called, nothing is held back for later, nothing is added to the trace.
\<close>

theorem closed_gate_drops_event:
  assumes "\<not> (recordingEnabled w \<and> obsConnected w)"
  shows "step w (PlaybackStatus payload) = w \<and> step w DolphinQuit = w"
  using assms by (cases "recordingEnabled w") (simp_all add: status_next_def quit_next_def)

theorem closed_gate_drops_event_witness:
  "\<not> (recordingEnabled (initial ''/tmp'' ()) \<and> obsConnected (initial ''/tmp'' ())) \<and>
   step (initial ''/tmp'' ()) (PlaybackStatus start_payload) = initial ''/tmp'' () \<and>
   step (initial ''/tmp'' ()) DolphinQuit = initial ''/tmp'' ()"
proof -
  have a: "\<not> (recordingEnabled (initial ''/tmp'' ()) \<and> obsConnected (initial ''/tmp'' ()))"
    by (simp add: initial_def)
  from closed_gate_drops_event[OF a, of start_payload] a show ?thesis by simp
qed

text \<open>
  Claim C5. The stored mode is that of the latest \<^verbatim>\<open>loadJSON\<close>. With recording enabled,
  the handler of a \<^verbatim>\<open>PLAYBACK_START\<close> event logs the payload, asks the device whether it
  is recording, and issues \<open>UNPAUSE\<close> (pause between entries) or \<open>START\<close> (otherwise) when
  it is, and \<open>START\<close> when it is not.
\<close>

theorem playback_start_action:
  assumes "w = run (loadJSON f options w0) ins" and "\<forall>i\<in>set ins. \<not> isLoadJSON i"
    and "recordingEnabled w" and "status payload = PLAYBACK_START"
  shows "handleDolphinPlayback payload w =
           (emit StatusSub
              [ConsoleLogPayload payload, IsRecording (obsRecording w),
               SetRecordingState
                 (if obsRecording w
                  then (if pauseBetweenEntries (Object_assign defaultDolphinPlayerOptions options)
                        then UNPAUSE else START)
                  else START)] w,
            InCommand Break)"
  using mode_armed(1)[OF assms(1,2,3)] assms(4)
  by (simp add: handleDolphinPlayback_def emit_def Let_def)

theorem playback_start_action_witness:
  "\<not> list_ex isLoadJSON [ObsState True True] \<and> recordingEnabled recording_world \<and>
   status start_payload = PLAYBACK_START \<and>
   handleDolphinPlayback start_payload recording_world =
     (emit StatusSub
        [ConsoleLogPayload start_payload, IsRecording True, SetRecordingState UNPAUSE]
        recording_world,
      InCommand Break)"
proof -
  have a: "\<forall>i\<in>set [ObsState True True]. \<not> isLoadJSON i" by simp
  have b: "recordingEnabled recording_world" "obsRecording recording_world"
    by (simp_all add: recording_world_eval)
  have c: "status start_payload = PLAYBACK_START" by (simp add: start_payload_def)
  have d: "pauseBetweenEntries (Object_assign defaultDolphinPlayerOptions recordingOptions)"
    by (simp add: Object_assign_def defaultDolphinPlayerOptions_def recordingOptions_def)
  from playback_start_action[OF recording_world_def a b(1) c] a b c d
  show ?thesis by simp
qed

text \<open>
  Claim C6. With recording enabled, the handler of a \<^verbatim>\<open>PLAYBACK_END\<close> event whose
  payload does not say that the game ended issues the suspend action (\<open>PAUSE\<close> when
  pausing between entries, \<open>STOP\<close> otherwise) in the step in which it is called. When the
  game ended it starts a delay of 1000 ms instead. Whatever happens next, the subscription
  does nothing before the clock has advanced by 1000 since the call; and once the timer
  has fired with the clock advanced that far, the subscription has issued the suspend
  action, as the first thing after the delay.
\<close>

theorem playback_end_settle_delay:
  assumes "w = run (loadJSON f options w0) ins0" and "\<forall>i\<in>set ins0. \<not> isLoadJSON i"
    and "recordingEnabled w" and "status payload = PLAYBACK_END"
    and "\<forall>i\<in>set ins. \<not> isLoadJSON i"
    and "suspend = (if pauseBetweenEntries (Object_assign defaultDolphinPlayerOptions options)
                    then PAUSE else STOP)"
  shows "(\<not> data_gameEnded payload \<longrightarrow>
            sub_trace StatusSub (status_project payload w) =
              sub_trace StatusSub w @
                [HandlerCalled, ConsoleLogPayload payload, SetRecordingState suspend]) \<and>
         (data_gameEnded payload \<longrightarrow>
            (\<exists>rest. sub_trace StatusSub (run (status_project payload w) ins) =
                      sub_trace StatusSub w @
                        [HandlerCalled, ConsoleLogPayload payload, DelayStarted 1000] @ rest \<and>
                    (rest = [] \<or> prefix [DelayElapsed, SetRecordingState suspend] rest) \<and>
                    (clock (run (status_project payload w) ins) < clock w + 1000 \<longrightarrow> rest = []) \<and>
                    (\<forall>ins1 ins2.
                        ins = ins1 @ TimerFired # ins2 \<and>
                        clock w + 1000 \<le> clock (run (status_project payload w) ins1) \<longrightarrow>
                        prefix [DelayElapsed, SetRecordingState suspend] rest)))"
proof -
  have e: "endAction w = suspend"
    using mode_armed(2)[OF assms(1,2,3)] assms(6) by simp
  have 1: "\<not> data_gameEnded payload \<longrightarrow>
            sub_trace StatusSub (status_project payload w) =
              sub_trace StatusSub w @
                [HandlerCalled, ConsoleLogPayload payload, SetRecordingState suspend]"
    using assms(4) e
    by (simp add: status_project_trace handleDolphinPlayback_trace handleDolphinPlayback_snd)
  have 2: "\<exists>rest. sub_trace StatusSub (run (status_project payload w) ins) =
                      sub_trace StatusSub w @
                        [HandlerCalled, ConsoleLogPayload payload, DelayStarted 1000] @ rest \<and>
                    (rest = [] \<or> prefix [DelayElapsed, SetRecordingState suspend] rest) \<and>
                    (clock (run (status_project payload w) ins) < clock w + 1000 \<longrightarrow> rest = []) \<and>
                    (\<forall>ins1 ins2.
                        ins = ins1 @ TimerFired # ins2 \<and>
                        clock w + 1000 \<le> clock (run (status_project payload w) ins1) \<longrightarrow>
                        prefix [DelayElapsed, SetRecordingState suspend] rest)"
    if g: "data_gameEnded payload"
  proof -
    let ?v = "status_project payload w"
    have v: "active (statusPipe ?v) = Some (InDelay (clock w + 1000))"
      "sub_trace StatusSub ?v =
         sub_trace StatusSub w @ [HandlerCalled, ConsoleLogPayload payload, DelayStarted 1000]"
      "endAction ?v = suspend"
      using assms(4) g e
      by (simp_all add: status_project_trace handleDolphinPlayback_trace
            handleDolphinPlayback_snd DELAY_AMOUNT_MS_def)
    from delay_run[OF v(1) assms(5)] obtain rest where
      rest: "sub_trace StatusSub (run ?v ins) = sub_trace StatusSub ?v @ rest"
        "rest = [] \<or> prefix [DelayElapsed, SetRecordingState (endAction ?v)] rest"
        "clock (run ?v ins) < clock w + 1000 \<longrightarrow> rest = []"
      by blast
    have fired: "prefix [DelayElapsed, SetRecordingState suspend] rest"
      if s: "ins = ins1 @ TimerFired # ins2" and c: "clock w + 1000 \<le> clock (run ?v ins1)"
      for ins1 ins2
    proof -
      have n: "\<forall>i\<in>set ins1. \<not> isLoadJSON i" using assms(5) s by simp
      from delay_fired_run[OF v(1) n c, of ins2] obtain t where
        "sub_trace StatusSub (run ?v ins) =
           sub_trace StatusSub ?v @ [DelayElapsed, SetRecordingState (endAction ?v)] @ t"
        using s by blast
      with rest(1) v(3) have "rest = [DelayElapsed, SetRecordingState suspend] @ t" by simp
      then show ?thesis by simp
    qed
    from rest v(2,3) fired show ?thesis by auto
  qed
  from 1 2 show ?thesis by blast
qed

theorem playback_end_settle_delay_witness:
  "\<not> list_ex isLoadJSON [ObsState True True] \<and> recordingEnabled recording_world \<and>
   status end_payload = PLAYBACK_END \<and> data_gameEnded end_payload \<and>
   \<not> list_ex isLoadJSON [Advance 999, TimerFired] \<and>
   clock (run (status_project end_payload recording_world) [Advance 999, TimerFired]) <
     clock recording_world + 1000 \<and>
   sub_trace StatusSub (run (status_project end_payload recording_world) [Advance 999, TimerFired]) =
     [HandlerCalled, ConsoleLogPayload end_payload, DelayStarted 1000] \<and>
   \<not> list_ex isLoadJSON [Advance 1000, TimerFired] \<and>
   clock recording_world + 1000 \<le> clock (run (status_project end_payload recording_world) [Advance 1000]) \<and>
   prefix [HandlerCalled, ConsoleLogPayload end_payload, DelayStarted 1000, DelayElapsed,
           SetRecordingState PAUSE]
     (sub_trace StatusSub (run (status_project end_payload recording_world) [Advance 1000, TimerFired])) \<and>
   sub_trace StatusSub (run (status_project end_payload recording_world) [Advance 1000, TimerFired]) =
     [HandlerCalled, ConsoleLogPayload end_payload, DelayStarted 1000, DelayElapsed,
      SetRecordingState PAUSE]"
proof -
  let ?v = "status_project end_payload recording_world"
  have a: "\<forall>i\<in>set [ObsState True True]. \<not> isLoadJSON i"
    "\<forall>i\<in>set [Advance 999, TimerFired]. \<not> isLoadJSON i"
    "\<forall>i\<in>set [Advance 1000, TimerFired]. \<not> isLoadJSON i" by simp_all
  have b: "recordingEnabled recording_world" "sub_trace StatusSub recording_world = []"
    by (simp_all add: recording_world_eval effects_def)
  have c: "status end_payload = PLAYBACK_END" "data_gameEnded end_payload"
    by (simp_all add: end_payload_def data_gameEnded_def)
  have d: "clock (run ?v [Advance 999, TimerFired]) < clock recording_world + 1000"
    "clock recording_world + 1000 \<le> clock (run ?v [Advance 1000])"
    by (simp_all add: recording_world_eval) (simp_all add: eval_defs)
  have p: "pauseBetweenEntries (Object_assign defaultDolphinPlayerOptions recordingOptions)"
    by (simp add: Object_assign_def defaultDolphinPlayerOptions_def recordingOptions_def)
  have early: "sub_trace StatusSub (run ?v [Advance 999, TimerFired]) =
     [HandlerCalled, ConsoleLogPayload end_payload, DelayStarted 1000]"
    using playback_end_settle_delay[OF recording_world_def a(1) b(1) c(1) a(2) refl] b c d(1)
    by auto
  from playback_end_settle_delay[OF recording_world_def a(1) b(1) c(1) a(3) refl] c(2) p
  obtain rest where rest:
    "sub_trace StatusSub (run ?v [Advance 1000, TimerFired]) =
       sub_trace StatusSub recording_world @
         [HandlerCalled, ConsoleLogPayload end_payload, DelayStarted 1000] @ rest"
    "\<forall>ins1 ins2. [Advance 1000, TimerFired] = ins1 @ TimerFired # ins2 \<and>
        clock recording_world + 1000 \<le> clock (run ?v ins1) \<longrightarrow>
        prefix [DelayElapsed, SetRecordingState PAUSE] rest"
    by auto
  from rest(2)[rule_format, of "[Advance 1000]" "[]"] d(2)
  have "prefix [DelayElapsed, SetRecordingState PAUSE] rest" by simp
  with rest(1) b(2) have late: "prefix [HandlerCalled, ConsoleLogPayload end_payload, DelayStarted 1000, DelayElapsed,
           SetRecordingState PAUSE]
     (sub_trace StatusSub (run ?v [Advance 1000, TimerFired]))"
    by (auto simp: prefix_def)
  have exact: "sub_trace StatusSub (run ?v [Advance 1000, TimerFired]) =
     [HandlerCalled, ConsoleLogPayload end_payload, DelayStarted 1000, DelayElapsed,
      SetRecordingState PAUSE]"
    by (simp add: recording_world_eval) (simp add: eval_defs effects_def)
  from a b c d early late exact show ?thesis by simp
qed

text \<open>
  Claim C7. The queue references exactly the file names whose extension is \<^verbatim>\<open>.slp\<close>, in
  their order. When there is none the operation only logs the empty queue: no file is
  written and nothing is loaded. Otherwise, the file system permitting, the payload of the
  queue is written to the temporary file and the engine is started on it.
\<close>

theorem materialize_keeps_slp_in_order:
  "map path (slp_queue filenames) =
     filter (\<lambda>filename. path_extname filename = ''.slp'') filenames \<and>
   (slp_queue filenames = [] \<longrightarrow>
      loadSlpFilesInDolphin generateDolphinQueuePayload filenames options w =
        Inr (w\<lparr>trace := trace w @ [(Caller, ConsoleLogQueue [])]\<rparr>)) \<and>
   (slp_queue filenames \<noteq> [] \<and> writable w \<longrightarrow>
      (\<exists>w'. loadSlpFilesInDolphin generateDolphinQueuePayload filenames options w = Inr w' \<and>
            files w' =
              (randomTempJSONFile w, generateDolphinQueuePayload (slp_queue filenames)) # files w \<and>
            dolphin w' = Some (randomTempJSONFile w))) \<and>
   slp_queue [''a.slp'', ''a.txt'', ''b.slp''] = [\<lparr>path = ''a.slp''\<rparr>, \<lparr>path = ''b.slp''\<rparr>] \<and>
   slp_queue [''a.txt''] = []"
proof -
  have 1: "map path (slp_queue filenames) =
     filter (\<lambda>filename. path_extname filename = ''.slp'') filenames"
    by (simp add: slp_queue_def comp_def)
  have 2: "slp_queue filenames = [] \<longrightarrow>
      loadSlpFilesInDolphin generateDolphinQueuePayload filenames options w =
        Inr (w\<lparr>trace := trace w @ [(Caller, ConsoleLogQueue [])]\<rparr>)"
    by (simp add: loadSlpFilesInDolphin_def emit_def)
  have 3: "slp_queue filenames \<noteq> [] \<and> writable w \<longrightarrow>
      (\<exists>w'. loadSlpFilesInDolphin generateDolphinQueuePayload filenames options w = Inr w' \<and>
            files w' =
              (randomTempJSONFile w, generateDolphinQueuePayload (slp_queue filenames)) # files w \<and>
            dolphin w' = Some (randomTempJSONFile w))"
    by (simp add: loadSlpFilesInDolphin_def loadPayloadIntoDolphin_def fs_writeFile_def
          openComboInDolphin_def loadJSON_def super_loadJSON_def randomTempJSONFile_def
          emit_def Let_def)
  have 4: "slp_queue [''a.slp'', ''a.txt'', ''b.slp''] = [\<lparr>path = ''a.slp''\<rparr>, \<lparr>path = ''b.slp''\<rparr>]"
    "slp_queue [''a.txt''] = []"
    by (simp_all add: slp_queue_def path_extname_def path_basename_def Let_def)
  from 1 2 3 4 show ?thesis by blast
qed

theorem materialize_keeps_slp_in_order_witness:
  "slp_queue [''a.txt''] = [] \<and>
   loadSlpFilesInDolphin payload_of_queue [''a.txt''] None (initial ''/tmp'' ()) =
     Inr ((initial ''/tmp'' ())\<lparr>trace := [(Caller, ConsoleLogQueue [])]\<rparr>) \<and>
   slp_queue [''a.slp'', ''a.txt'', ''b.slp''] \<noteq> [] \<and> writable (initial ''/tmp'' ()) \<and>
   (\<exists>w'. loadSlpFilesInDolphin payload_of_queue [''a.slp'', ''a.txt'', ''b.slp''] None
            (initial ''/tmp'' ()) = Inr w' \<and>
         files w' = [(randomTempJSONFile (initial ''/tmp'' ()), ''a.slpb.slp'')])"
proof -
  let ?w0 = "initial ''/tmp'' () :: unit world"
  have a: "slp_queue [''a.txt''] = []"
    "slp_queue [''a.slp'', ''a.txt'', ''b.slp''] = [\<lparr>path = ''a.slp''\<rparr>, \<lparr>path = ''b.slp''\<rparr>]"
    by (simp_all add: slp_queue_def path_extname_def path_basename_def Let_def)
  have ne: "slp_queue [''a.slp'', ''a.txt'', ''b.slp''] \<noteq> []" using a(2) by simp
  have b: "writable ?w0" "files ?w0 = []" "trace ?w0 = []"
    by (simp_all add: initial_def)
  have "loadSlpFilesInDolphin payload_of_queue [''a.txt''] None ?w0 =
          Inr (?w0\<lparr>trace := trace ?w0 @ [(Caller, ConsoleLogQueue [])]\<rparr>)"
    using materialize_keeps_slp_in_order[of "[''a.txt'']" payload_of_queue None ?w0] a(1)
    by blast
  then have c: "loadSlpFilesInDolphin payload_of_queue [''a.txt''] None ?w0 =
          Inr (?w0\<lparr>trace := [(Caller, ConsoleLogQueue [])]\<rparr>)"
    using b(3) by simp
  obtain w' where w': "loadSlpFilesInDolphin payload_of_queue [''a.slp'', ''a.txt'', ''b.slp''] None
            ?w0 = Inr w'"
    "files w' = (randomTempJSONFile ?w0,
        payload_of_queue (slp_queue [''a.slp'', ''a.txt'', ''b.slp''])) # files ?w0"
    using materialize_keeps_slp_in_order[of "[''a.slp'', ''a.txt'', ''b.slp'']" payload_of_queue
      None ?w0] ne b(1)
    by blast
  have "files w' = [(randomTempJSONFile ?w0, ''a.slpb.slp'')]"
    using w'(2) a(2) b(2) by (simp add: payload_of_queue_def)
  with w'(1) a(1) ne b(1) c show ?thesis by blast
qed

text \<open>
  Claim C9. When the chosen path is undefined or empty, saving the queue logs the error
  and changes nothing else: no file is written and the queue of the store is as before.
\<close>

theorem save_without_path_writes_nothing:
  assumes "p = None \<or> p = Some ''''"
  shows "saveQueueToFile JSON_stringify p w =
           Inr (w\<lparr>trace := trace w @
                  [(Caller, ConsoleError ''Could not save queue because path is undefined'')]\<rparr>)"
  using assms by (auto simp: saveQueueToFile_def emit_def)

theorem save_without_path_writes_nothing_witness:
  "(None = (None :: string option) \<or> None = Some '''') \<and>
   saveQueueToFile (\<lambda>qo. payload_of_queue) None (initial ''/tmp'' ()) =
     Inr ((initial ''/tmp'' ())\<lparr>trace :=
            [(Caller, ConsoleError ''Could not save queue because path is undefined'')]\<rparr>)"
proof -
  have a: "None = (None :: string option) \<or> None = Some ''''" by simp
  have b: "trace (initial ''/tmp'' ()) = []" by (simp add: initial_def)
  from save_without_path_writes_nothing[OF a, of "\<lambda>qo. payload_of_queue" "initial ''/tmp'' ()"] b
  show ?thesis by simp
qed

text \<open>
  Claim C10. \<^verbatim>\<open>_stopRecording\<close> first sets the current basename to the empty string; the
  query of the device and the command, if any, come after it, and the reset happens
  whether or not the device is recording. Both the \<^verbatim>\<open>QUEUE_EMPTY\<close> case and the handler
  of the engine-exit signal are calls of this routine.
\<close>

theorem stop_recording_resets_basename_first:
  "currentBasename (fst (stopRecording og killDolphin w)) = '''' \<and>
   trace (fst (stopRecording og killDolphin w)) =
     trace w @ [(og, BasenameNext ''''), (og, IsRecording (obsRecording w))] @
       (if obsRecording w then [(og, SetRecordingState STOP)]
        else if killDolphin \<and> dolphin w \<noteq> None then [(og, Kill)] else []) \<and>
   handleDolphinPlayback \<lparr>status = QUEUE_EMPTY, data = d\<rparr> w =
     stopRecording StatusSub True
       (emit StatusSub [ConsoleLogPayload \<lparr>status = QUEUE_EMPTY, data = d\<rparr>] w) \<and>
   quit_project w = quit_run (stopRecording QuitSub False (emit QuitSub [HandlerCalled] w))"
  by (auto simp add: stopRecording_def stopRecording_tail_def emit_def Let_def
        handleDolphinPlayback_def quit_project_def)

theorem stop_recording_resets_basename_first_witness:
  "currentBasename (fst (stopRecording QuitSub False armed_world)) = '''' \<and>
   trace (fst (stopRecording QuitSub False armed_world)) =
     [(Caller, Launch ''q.json''), (QuitSub, BasenameNext ''''), (QuitSub, IsRecording False)]"
  using stop_recording_resets_basename_first [of QuitSub False armed_world]
  by (simp add: armed_world_eval)

end
